theory Spec2Isabelle
  imports Main
begin

section \<open>Strings\<close>

text \<open>
  A Python \<open>str\<close> is modelled as a \<open>string\<close> whose characters are the code points
  0..255. On that range \<open>str.strip()\<close> removes the characters of \<open>is_space\<close>,
  \<open>str.lower()\<close> moves A..Z and the upper-case letters of the Latin-1 block (U+00C0 to
  U+00DE without the multiplication sign), and \<open>\d\<close> and \<open>int\<close> know the digits 0..9
  only.
\<close>

definition is_space :: "char \<Rightarrow> bool" where
  "is_space c =
     (let n = (of_char c :: nat)
      in (9 \<le> n \<and> n \<le> 13) \<or> (28 \<le> n \<and> n \<le> 32) \<or> n = 133 \<or> n = 160)"

definition strip :: "string \<Rightarrow> string" where
  "strip s = rev (dropWhile is_space (rev (dropWhile is_space s)))"

definition lower_char :: "char \<Rightarrow> char" where
  "lower_char c =
     (let n = (of_char c :: nat)
      in if (65 \<le> n \<and> n \<le> 90) \<or> (192 \<le> n \<and> n \<le> 222 \<and> n \<noteq> 215)
         then char_of (n + 32) else c)"

definition lower :: "string \<Rightarrow> string" where
  "lower s = map lower_char s"

definition is_digit :: "char \<Rightarrow> bool" where
  "is_digit c = (48 \<le> (of_char c :: nat) \<and> (of_char c :: nat) \<le> 57)"

definition digit_val :: "char \<Rightarrow> nat" where
  "digit_val c = (of_char c :: nat) - 48"

definition digit_char :: "nat \<Rightarrow> char" where
  "digit_char d = char_of (48 + d)"

text \<open>\<open>str(n)\<close> for a non-negative integer, as the f-strings and \<open>format\<close> print it.\<close>

fun str_nat :: "nat \<Rightarrow> string" where
  "str_nat n = (if n < 10 then [digit_char n] else str_nat (n div 10) @ [digit_char (n mod 10)])"

declare str_nat.simps [simp del]

text \<open>The number a string of decimal digits stands for.\<close>

definition nat_of_digits :: "string \<Rightarrow> nat" where
  "nat_of_digits ds = foldl (\<lambda>a c. 10 * a + digit_val c) 0 ds"

text \<open>
  \<open>int\<close> raises \<open>ValueError\<close> on a string it rejects, and it rejects every string with more
  than \<open>sys.int_info.default_max_str_digits\<close> digit characters, 4300 unless the interpreter
  is configured otherwise. So \<open>int(ds)\<close> on a string of decimal digits is:
\<close>

datatype py_error = ValueError

definition int_max_str_digits :: nat where
  "int_max_str_digits = 4300"

definition int_of_digits :: "string \<Rightarrow> py_error + nat" where
  "int_of_digits ds =
     (if int_max_str_digits < length ds then Inl ValueError else Inr (nat_of_digits ds))"

text \<open>\<open>sep.join(xs)\<close>.\<close>

fun join :: "string \<Rightarrow> string list \<Rightarrow> string" where
  "join sep [] = []"
| "join sep [x] = x"
| "join sep (x # y # ys) = x @ sep @ join sep (y # ys)"

section \<open>The data model of \<open>compile_parsed_content\<close>\<close>

text \<open>
  A parsed block is a dict; the compiler reads its keys \<open>type\<close> and \<open>text\<close> with
  \<open>get\<close>, so either may be absent (\<open>None\<close>; a \<open>null\<close> text reads the same). Both
  are strings when present. The page number of a block is not read by the compiler.
  The keys \<open>section\<close>, \<open>section_block\<close>, \<open>subsection\<close>, \<open>subsection_block\<close> and
  \<open>text\<close> of a content entry carry the prefix \<open>ce_\<close> here, and the keys of the
  returned dict the prefix \<open>out_\<close>.
\<close>

record block =
  blk_type :: "string option"
  blk_text :: "string option"

record content_entry =
  ce_section :: string
  ce_section_block :: string
  ce_subsection :: string
  ce_subsection_block :: string
  ce_text :: string

record resource =
  reference :: string
  content :: string
  content_type :: string
  description :: string
  content_block :: nat
  description_block :: "nat option"

text \<open>
  The local variables of one call. \<open>last_resource\<close> is a reference to the dict that was
  appended to \<open>resources\<close> last; the model keeps its position in that list, and a write
  through the reference is an update of the list at that position.
\<close>

record compiler_state =
  content_sections :: "content_entry list"
  resources :: "resource list"
  current_section :: string
  current_section_block :: string
  current_subsection :: string
  current_subsection_block :: string
  current_text_buffer :: "string list"
  image_counter :: nat
  table_counter :: nat
  last_resource :: "nat option"

record structured_output =
  out_content :: "content_entry list"
  out_resources :: "resource list"

section \<open>The compiler\<close>

text \<open>
  \<open>block_link_format.format(idx)\<close> at the default format \<open>"[block:{}]"\<close>, the only one
  the program calls the compiler with and the one \<open>parse_block_links\<close> recognises.
\<close>

definition block_link :: "nat \<Rightarrow> string" where
  "block_link idx = ''[block:'' @ str_nat idx @ '']''"

definition image_ref :: "nat \<Rightarrow> string" where
  "image_ref n = ''[image:'' @ str_nat n @ '']''"

definition table_ref :: "nat \<Rightarrow> string" where
  "table_ref n = ''[table:'' @ str_nat n @ '']''"

text \<open>The f-string \<open>f"{block_ref}{block_text}{block_ref}"\<close>.\<close>

definition wrap :: "nat \<Rightarrow> string \<Rightarrow> string" where
  "wrap idx t = block_link idx @ t @ block_link idx"

definition initial_state :: compiler_state where
  "initial_state =
     \<lparr>content_sections = [], resources = [],
      current_section = ''section_1'', current_section_block = [],
      current_subsection = ''subsection_1'', current_subsection_block = [],
      current_text_buffer = [], image_counter = 1, table_counter = 1,
      last_resource = None\<rparr>"

definition flush_current_text :: "compiler_state \<Rightarrow> compiler_state" where
  "flush_current_text st =
     (if current_text_buffer st \<noteq> [] then
        st\<lparr>content_sections := content_sections st @
              [\<lparr>ce_section = current_section st,
                ce_section_block = current_section_block st,
                ce_subsection = current_subsection st,
                ce_subsection_block = current_subsection_block st,
                ce_text = join '' '' (current_text_buffer st)\<rparr>],
           current_text_buffer := []\<rparr>
      else st)"

text \<open>\<open>block.get("type", "")\<close> and \<open>(block.get("text") or "").strip()\<close>.\<close>

definition block_type :: "block \<Rightarrow> string" where
  "block_type b = (case blk_type b of None \<Rightarrow> [] | Some t \<Rightarrow> t)"

definition block_text :: "block \<Rightarrow> string" where
  "block_text b = strip (case blk_text b of None \<Rightarrow> [] | Some t \<Rightarrow> t)"

text \<open>
  The test \<open>mapped and mapped.lower() != "none"\<close> on the result of
  \<open>section_headers_mapping.get(block_text, None)\<close>. The mapping is a dict from strings
  to strings.
\<close>

definition standard_header :: "string option \<Rightarrow> bool" where
  "standard_header mapped =
     (case mapped of None \<Rightarrow> False | Some v \<Rightarrow> v \<noteq> [] \<and> lower v \<noteq> ''none'')"

text \<open>The body of the loop, for the block at position \<open>idx\<close>.\<close>

definition process_block ::
  "(string \<rightharpoonup> string) \<Rightarrow> nat \<Rightarrow> block \<Rightarrow> compiler_state \<Rightarrow> compiler_state" where
  "process_block section_headers_mapping idx b st =
     (if block_type b = ''Section header'' then
        (if standard_header (section_headers_mapping (block_text b)) then
           (flush_current_text st)
             \<lparr>current_section := lower (the (section_headers_mapping (block_text b))),
              current_section_block := block_link idx,
              current_subsection := ''subsection_1'',
              current_subsection_block := []\<rparr>
         else
           (flush_current_text st)
             \<lparr>current_subsection := block_text b,
              current_subsection_block := block_link idx\<rparr>)
      else if block_type b = ''Picture'' \<or> block_type b = ''Table'' then
        (if block_type b = ''Picture'' then
           st\<lparr>resources := resources st @
                 [\<lparr>reference = image_ref (image_counter st), content = block_text b,
                   content_type = ''image'', description = [],
                   content_block = idx, description_block = None\<rparr>],
              last_resource := Some (length (resources st)),
              current_text_buffer := current_text_buffer st @
                 [block_link idx @ image_ref (image_counter st) @ block_link idx],
              image_counter := image_counter st + 1\<rparr>
         else
           st\<lparr>resources := resources st @
                 [\<lparr>reference = table_ref (table_counter st), content = block_text b,
                   content_type = ''table'', description = [],
                   content_block = idx, description_block = None\<rparr>],
              last_resource := Some (length (resources st)),
              current_text_buffer := current_text_buffer st @
                 [block_link idx @ table_ref (table_counter st) @ block_link idx],
              table_counter := table_counter st + 1\<rparr>)
      else if block_type b = ''Caption'' then
        (case last_resource st of
           Some i \<Rightarrow>
             (if description (resources st ! i) = [] then
                st\<lparr>resources := (resources st)
                     [i := (resources st ! i)
                        \<lparr>description := block_link idx @ block_text b @ block_link idx,
                         description_block := Some idx\<rparr>]\<rparr>
              else st)
         | None \<Rightarrow>
             (if block_text b \<noteq> [] then
                st\<lparr>current_text_buffer := current_text_buffer st @
                     [block_link idx @ block_text b @ block_link idx]\<rparr>
              else st))
      else
        (if block_text b \<noteq> [] then
           st\<lparr>current_text_buffer := current_text_buffer st @
                [block_link idx @ block_text b @ block_link idx]\<rparr>
         else st))"

text \<open>\<open>for idx, block in enumerate(parsed_content)\<close>, from position \<open>idx\<close> on.\<close>

fun process_blocks ::
  "(string \<rightharpoonup> string) \<Rightarrow> nat \<Rightarrow> block list \<Rightarrow> compiler_state \<Rightarrow> compiler_state" where
  "process_blocks mp idx [] st = st"
| "process_blocks mp idx (b # bs) st = process_blocks mp (Suc idx) bs (process_block mp idx b st)"

text \<open>
  The end of the function: the default entry added when nothing was flushed, and the
  returned dict.
\<close>

definition finish :: "compiler_state \<Rightarrow> structured_output" where
  "finish st =
     \<lparr>out_content =
        (if content_sections st = [] then
           [\<lparr>ce_section = current_section st,
             ce_section_block = current_section_block st,
             ce_subsection = current_subsection st,
             ce_subsection_block = current_subsection_block st,
             ce_text = []\<rparr>]
         else content_sections st),
      out_resources = resources st\<rparr>"

definition compile_parsed_content ::
  "block list \<Rightarrow> (string \<rightharpoonup> string) \<Rightarrow> structured_output" where
  "compile_parsed_content parsed_content section_headers_mapping =
     finish (flush_current_text
       (process_blocks section_headers_mapping 0 parsed_content initial_state))"

section \<open>The reference codec: \<open>parse_block_links\<close>\<close>

text \<open>
  A child of the rendered text: \<open>html.Span(part)\<close>, or the clickable
  \<open>html.Span(part, id={'type': 'block-link', 'index': block_idx}, ...)\<close>.
\<close>

datatype span = Plain_span string | Link_span nat string

text \<open>
  \<open>re.match(r'\[block:(\d+)\]', s)\<close>: the pattern is matched at the start of \<open>s\<close>. A
  match gives the digits of the group and the rest of \<open>s\<close> after the match. The greedy
  \<open>\d+\<close> takes every digit, and giving digits back cannot help, since a digit is not
  \<open>]\<close>.
\<close>

definition match_block_link :: "string \<Rightarrow> (string \<times> string) option" where
  "match_block_link s =
     (if take 7 s = ''[block:'' then
        (let ds = takeWhile is_digit (drop 7 s); r = dropWhile is_digit (drop 7 s)
         in if ds \<noteq> [] \<and> r \<noteq> [] \<and> hd r = CHR '']'' then Some (ds, tl r) else None)
      else None)"

lemma match_block_link_shorter:
  "match_block_link s = Some (ds, rest) \<Longrightarrow> length rest < length s"
proof -
  assume m: "match_block_link s = Some (ds, rest)"
  let ?r = "dropWhile is_digit (drop 7 s)"
  from m have r: "?r \<noteq> []" and rest: "rest = tl ?r"
    by (auto simp: match_block_link_def Let_def split: if_splits)
  have "length ?r \<le> length (drop 7 s)" by (rule length_dropWhile_le)
  then have "length ?r \<le> length s" by simp
  moreover have "length rest < length ?r" using r rest by (cases ?r) auto
  ultimately show ?thesis by simp
qed

text \<open>
  \<open>re.split(r'(\[block:\d+\])', text)\<close>: the text is cut at the leftmost matches, from
  left to right, and each match is kept between the pieces it separates, the pattern being
  one group. \<open>acc\<close> is the piece read since the last match. The result always alternates
  piece, match, piece, ..., piece.
\<close>

function re_split :: "string \<Rightarrow> string \<Rightarrow> string list" where
  "re_split acc [] = [acc]"
| "re_split acc (c # cs) =
     (case match_block_link (c # cs) of
        Some (ds, rest) \<Rightarrow> acc # (''[block:'' @ ds @ '']'') # re_split [] rest
      | None \<Rightarrow> re_split (acc @ [c]) cs)"
  by pat_completeness auto
termination
  by (relation "measure (\<lambda>(acc, s). length s)") (auto dest: match_block_link_shorter)

text \<open>
  The body of the loop over the parts: a part that starts with a marker becomes a link span
  with the index \<open>int(m.group(1))\<close>, any other part a plain span. Nothing catches the
  \<open>ValueError\<close> of \<open>int\<close>, so the first part whose index is too long ends the call.
\<close>

definition classify :: "string \<Rightarrow> py_error + span" where
  "classify part =
     (case match_block_link part of
        Some (ds, rest) \<Rightarrow>
          (case int_of_digits ds of
             Inl e \<Rightarrow> Inl e
           | Inr block_idx \<Rightarrow> Inr (Link_span block_idx part))
      | None \<Rightarrow> Inr (Plain_span part))"

fun classify_parts :: "string list \<Rightarrow> py_error + span list" where
  "classify_parts [] = Inr []"
| "classify_parts (part # parts) =
     (case classify part of
        Inl e \<Rightarrow> Inl e
      | Inr child \<Rightarrow>
          (case classify_parts parts of
             Inl e \<Rightarrow> Inl e
           | Inr children \<Rightarrow> Inr (child # children)))"

definition parse_block_links :: "string \<Rightarrow> py_error + span list" where
  "parse_block_links text = classify_parts (re_split [] text)"

text \<open>
  The spans of a text with the index every marker names, however long its digits are: the
  spans \<open>parse_block_links\<close> returns whenever it returns. A part is too long when it is a
  marker whose digits \<open>int\<close> refuses.
\<close>

definition span_of_part :: "string \<Rightarrow> span" where
  "span_of_part part =
     (case match_block_link part of
        Some (ds, rest) \<Rightarrow> Link_span (nat_of_digits ds) part
      | None \<Rightarrow> Plain_span part)"

definition spans_of_text :: "string \<Rightarrow> span list" where
  "spans_of_text text = map span_of_part (re_split [] text)"

definition too_long :: "string \<Rightarrow> bool" where
  "too_long part =
     (case match_block_link part of
        Some (ds, rest) \<Rightarrow> int_max_str_digits < length ds
      | None \<Rightarrow> False)"

text \<open>Whether the pattern matches somewhere in a string.\<close>

fun has_block_link :: "string \<Rightarrow> bool" where
  "has_block_link [] = False"
| "has_block_link (c # cs) =
     (case match_block_link (c # cs) of Some m \<Rightarrow> True | None \<Rightarrow> has_block_link cs)"

text \<open>
  What a reader of the decoded spans recovers: the block indices of the links, in order,
  and the text of the spans. \<open>decoded_indices\<close> are the indices the markers of a text
  name, the ones of the links \<open>parse_block_links\<close> returns whenever it returns.
\<close>

fun link_indices :: "span list \<Rightarrow> nat list" where
  "link_indices [] = []"
| "link_indices (Plain_span part # spans) = link_indices spans"
| "link_indices (Link_span i part # spans) = i # link_indices spans"

fun span_text :: "span \<Rightarrow> string" where
  "span_text (Plain_span part) = part"
| "span_text (Link_span i part) = part"

definition decoded_indices :: "string \<Rightarrow> nat list" where
  "decoded_indices text = link_indices (spans_of_text text)"

definition has_long_link :: "string \<Rightarrow> bool" where
  "has_long_link text = list_ex too_long (re_split [] text)"

section \<open>Resource links in \<open>build_nested_compiled_structure_html\<close>\<close>

text \<open>
  The value \<open>res.get("content_block", "")\<close> of a resource: an integer (what the compiler
  writes; a Python \<open>bool\<close> is an integer too), a string (the default for an absent field
  is the empty one), or a value of another type, of which only its truth value matters.
\<close>

datatype field_value = Int_value int | Str_value string | Other_value bool

fun truthy :: "field_value \<Rightarrow> bool" where
  "truthy (Int_value n) = (n \<noteq> 0)"
| "truthy (Str_value s) = (s \<noteq> [])"
| "truthy (Other_value t) = t"

text \<open>\<open>s.strip(chars)\<close>: every leading and trailing character that occurs in \<open>chars\<close> goes.\<close>

definition strip_chars :: "string \<Rightarrow> string \<Rightarrow> string" where
  "strip_chars chars s =
     rev (dropWhile (\<lambda>c. c \<in> set chars) (rev (dropWhile (\<lambda>c. c \<in> set chars) s)))"

text \<open>
  \<open>int(s)\<close> on a string, \<open>None\<close> for \<open>ValueError\<close>: whitespace around (tab to carriage
  return, space, U+0085, U+00A0), an optional sign, then decimal digits, where single
  underscores may stand between two digits. \<open>prev\<close> tells whether the character before
  was a digit. A string with more than 4300 digit characters is refused as well, the sign,
  the underscores and the whitespace not counted (\<open>within_limit\<close>).
\<close>

fun digit_groups :: "nat \<Rightarrow> bool \<Rightarrow> string \<Rightarrow> nat option" where
  "digit_groups acc prev [] = (if prev then Some acc else None)"
| "digit_groups acc prev (c # cs) =
     (if is_digit c then digit_groups (10 * acc + digit_val c) True cs
      else if c = CHR ''_'' \<and> prev then digit_groups acc False cs
      else None)"

definition int_space :: "char \<Rightarrow> bool" where
  "int_space c =
     (let n = (of_char c :: nat)
      in (9 \<le> n \<and> n \<le> 13) \<or> n = 32 \<or> n = 133 \<or> n = 160)"

definition within_limit :: "string \<Rightarrow> nat option \<Rightarrow> nat option" where
  "within_limit body r =
     (if int_max_str_digits < length (filter is_digit body) then None else r)"

definition py_int :: "string \<Rightarrow> int option" where
  "py_int s =
     (case rev (dropWhile int_space (rev (dropWhile int_space s))) of
        [] \<Rightarrow> None
      | c # cs \<Rightarrow>
          if c = CHR ''-'' then
            map_option (\<lambda>n. - int n) (within_limit cs (digit_groups 0 False cs))
          else if c = CHR ''+'' then
            map_option int (within_limit cs (digit_groups 0 False cs))
          else map_option int (within_limit (c # cs) (digit_groups 0 False (c # cs))))"

text \<open>
  The index of the link of a resource in \<open>build_nested_compiled_structure_html\<close>; \<open>None\<close>
  where \<open>resource_link_props\<close> stays empty. Every exception in the \<open>try\<close> block leads to
  the index 0: \<open>ValueError\<close> from \<open>int\<close>, \<open>AttributeError\<close> from \<open>strip\<close> on a
  value that is no string.
\<close>

definition resource_block_idx :: "field_value \<Rightarrow> int option" where
  "resource_block_idx cb =
     (if truthy cb then
        Some (case cb of
                Int_value n \<Rightarrow> n
              | Str_value s \<Rightarrow>
                  (case py_int (strip_chars '']'' (strip_chars ''[block:'' s)) of
                     Some n \<Rightarrow> n
                   | None \<Rightarrow> 0)
              | Other_value t \<Rightarrow> 0)
      else None)"

section \<open>What the specification expects\<close>

text \<open>
  The resources a block list should produce, read off the specification rather than the
  loop: a Picture or Table block yields a resource numbered by the counter of its type, and
  its description comes from the first Caption block that follows it with no other Picture
  or Table block in between (\<open>claiming_caption\<close>), or stays empty when there is none.
\<close>

fun claiming_caption :: "nat \<Rightarrow> block list \<Rightarrow> (nat \<times> string) option" where
  "claiming_caption idx [] = None"
| "claiming_caption idx (b # bs) =
     (if block_type b = ''Caption'' then Some (idx, block_text b)
      else if block_type b = ''Picture'' \<or> block_type b = ''Table'' then None
      else claiming_caption (Suc idx) bs)"

definition described :: "resource \<Rightarrow> (nat \<times> string) option \<Rightarrow> resource" where
  "described r c =
     (case c of None \<Rightarrow> r
      | Some (j, t) \<Rightarrow> r\<lparr>description := wrap j t, description_block := Some j\<rparr>)"

fun expected_resources :: "nat \<Rightarrow> nat \<Rightarrow> nat \<Rightarrow> block list \<Rightarrow> resource list" where
  "expected_resources idx ic tc [] = []"
| "expected_resources idx ic tc (b # bs) =
     (if block_type b = ''Picture'' then
        described \<lparr>reference = image_ref ic, content = block_text b, content_type = ''image'',
                   description = [], content_block = idx, description_block = None\<rparr>
          (claiming_caption (Suc idx) bs) # expected_resources (Suc idx) (Suc ic) tc bs
      else if block_type b = ''Table'' then
        described \<lparr>reference = table_ref tc, content = block_text b, content_type = ''table'',
                   description = [], content_block = idx, description_block = None\<rparr>
          (claiming_caption (Suc idx) bs) # expected_resources (Suc idx) ic (Suc tc) bs
      else expected_resources (Suc idx) ic tc bs)"

text \<open>
  In every state the loop reaches, \<open>last_resource\<close> refers to the last element of
  \<open>resources\<close>, or is absent while the list is empty. \<open>pending rs idx bs\<close> is what the
  resources \<open>rs\<close> of such a state become once the blocks \<open>bs\<close> are processed: only the
  last one can still get a description.
\<close>

definition last_is_newest :: "compiler_state \<Rightarrow> bool" where
  "last_is_newest st =
     (last_resource st =
        (if resources st = [] then None else Some (length (resources st) - 1)))"

definition pending :: "resource list \<Rightarrow> nat \<Rightarrow> block list \<Rightarrow> resource list" where
  "pending rs idx bs =
     (if rs = [] then []
      else butlast rs @
        [if description (last rs) = [] then described (last rs) (claiming_caption idx bs)
         else last rs])"

text \<open>
  Picture and Table blocks, and the blocks a caption search passes over: the ones that are
  neither a resource nor a Caption.
\<close>

definition is_resource_block :: "block \<Rightarrow> bool" where
  "is_resource_block b = (block_type b = ''Picture'' \<or> block_type b = ''Table'')"

definition is_flow_block :: "block \<Rightarrow> bool" where
  "is_flow_block b =
     (block_type b \<noteq> ''Picture'' \<and> block_type b \<noteq> ''Table'' \<and> block_type b \<noteq> ''Caption'')"

text \<open>
  A span as the compiler wraps it, for a block index below \<open>n\<close>; a text that is a join of
  such spans; and the states all of whose texts are of these forms.
\<close>

definition wrapped :: "nat \<Rightarrow> string \<Rightarrow> bool" where
  "wrapped n s = (\<exists>i<n. \<exists>t. s = block_link i @ t @ block_link i)"

definition joined_spans :: "nat \<Rightarrow> string \<Rightarrow> bool" where
  "joined_spans n s = (\<exists>spans. s = join '' '' spans \<and> list_all (wrapped n) spans)"

definition spans_wrapped :: "nat \<Rightarrow> compiler_state \<Rightarrow> bool" where
  "spans_wrapped n st =
     (list_all (wrapped n) (current_text_buffer st)
      \<and> list_all (\<lambda>e. joined_spans n (ce_text e)) (content_sections st)
      \<and> list_all (\<lambda>r. description r = [] \<or> wrapped n (description r)) (resources st))"

text \<open>
  The blocks that add a span to the flowing text, by their indices from \<open>idx\<close> on: every
  Picture and Table, a Caption with text met before any resource (\<open>seen\<close> tells whether one
  was appended), and every other block with text that is not a Section header.
\<close>

fun contributors :: "nat \<Rightarrow> bool \<Rightarrow> block list \<Rightarrow> nat list" where
  "contributors idx seen [] = []"
| "contributors idx seen (b # bs) =
     (if block_type b = ''Section header'' then contributors (Suc idx) seen bs
      else if block_type b = ''Picture'' \<or> block_type b = ''Table'' then
        idx # contributors (Suc idx) True bs
      else if block_type b = ''Caption'' then
        (if seen then contributors (Suc idx) seen bs
         else if block_text b \<noteq> [] then idx # contributors (Suc idx) seen bs
         else contributors (Suc idx) seen bs)
      else if block_text b \<noteq> [] then idx # contributors (Suc idx) seen bs
      else contributors (Suc idx) seen bs)"

text \<open>
  The block indices decoded from the texts of a list of entries, across the entries in
  order; for a state, those of its entries followed by those of its pending buffer.
\<close>

definition content_indices :: "content_entry list \<Rightarrow> nat list" where
  "content_indices es = concat (map (\<lambda>e. decoded_indices (ce_text e)) es)"

definition state_indices :: "compiler_state \<Rightarrow> nat list" where
  "state_indices st =
     content_indices (content_sections st) @
     concat (map decoded_indices (current_text_buffer st))"

text \<open>
  The spans the compiler appends to the flowing text, in order, each as the index of the
  block that produces it and the text between its two markers: the reference of the
  resource for a Picture or Table, the trimmed text of the block otherwise. \<open>ic\<close> and
  \<open>tc\<close> are the counters, \<open>seen\<close> tells whether a resource was appended before. A state
  is \<open>grouped\<close> over a list of spans when its entry texts are joins of consecutive runs of
  that list and its buffer is what remains of the list.
\<close>

fun produced_spans :: "nat \<Rightarrow> nat \<Rightarrow> nat \<Rightarrow> bool \<Rightarrow> block list \<Rightarrow> (nat \<times> string) list" where
  "produced_spans idx ic tc seen [] = []"
| "produced_spans idx ic tc seen (b # bs) =
     (if block_type b = ''Section header'' then produced_spans (Suc idx) ic tc seen bs
      else if block_type b = ''Picture'' then
        (idx, image_ref ic) # produced_spans (Suc idx) (Suc ic) tc True bs
      else if block_type b = ''Table'' then
        (idx, table_ref tc) # produced_spans (Suc idx) ic (Suc tc) True bs
      else if block_type b = ''Caption'' then
        (if seen then produced_spans (Suc idx) ic tc seen bs
         else if block_text b \<noteq> [] then
           (idx, block_text b) # produced_spans (Suc idx) ic tc seen bs
         else produced_spans (Suc idx) ic tc seen bs)
      else if block_text b \<noteq> [] then (idx, block_text b) # produced_spans (Suc idx) ic tc seen bs
      else produced_spans (Suc idx) ic tc seen bs)"

definition marked :: "nat \<times> string \<Rightarrow> string" where
  "marked p = block_link (fst p) @ snd p @ block_link (fst p)"

definition grouped :: "compiler_state \<Rightarrow> string list \<Rightarrow> bool" where
  "grouped st spans =
     (\<exists>groups. map ce_text (content_sections st) = map (join '' '') groups
        \<and> concat groups @ current_text_buffer st = spans)"

section \<open>Evaluation and basic facts\<close>

lemmas char_eval = char_of_def bit_Suc_0_iff

lemmas string_eval =
  strip_def is_space_def lower_def lower_char_def digit_char_def block_link_def
  image_ref_def table_ref_def wrap_def str_nat.simps char_eval

lemmas compile_eval =
  compile_parsed_content_def finish_def flush_current_text_def process_block_def
  initial_state_def block_type_def block_text_def standard_header_def string_eval

lemma flush_fields [simp]:
  "resources (flush_current_text st) = resources st"
  "last_resource (flush_current_text st) = last_resource st"
  "image_counter (flush_current_text st) = image_counter st"
  "table_counter (flush_current_text st) = table_counter st"
  "current_section (flush_current_text st) = current_section st"
  "current_section_block (flush_current_text st) = current_section_block st"
  "current_subsection (flush_current_text st) = current_subsection st"
  "current_subsection_block (flush_current_text st) = current_subsection_block st"
  "current_text_buffer (flush_current_text st) = []"
  by (simp_all add: flush_current_text_def)

lemma flush_content_sections:
  "content_sections (flush_current_text st) =
     content_sections st @
       (if current_text_buffer st = [] then []
        else [\<lparr>ce_section = current_section st,
               ce_section_block = current_section_block st,
               ce_subsection = current_subsection st,
               ce_subsection_block = current_subsection_block st,
               ce_text = join '' '' (current_text_buffer st)\<rparr>])"
  by (simp add: flush_current_text_def)

section \<open>Section headers\<close>

text \<open>
  C3, as the claim states it, fails where the mapped name is the empty string: the test
  \<open>mapped and ...\<close> is false there, and the header becomes a subsection title while
  \<open>current_section\<close> keeps its value instead of becoming the (empty) mapped name.
\<close>

theorem header_mapped_to_empty_name_is_subsection:
  "current_section
     (process_block [''Intro'' \<mapsto> []] 0
        \<lparr>blk_type = Some ''Section header'', blk_text = Some ''Intro''\<rparr> initial_state)
     = ''section_1''
   \<and> current_section
     (process_block [''Intro'' \<mapsto> []] 0
        \<lparr>blk_type = Some ''Section header'', blk_text = Some ''Intro''\<rparr> initial_state)
     \<noteq> lower (the ([''Intro'' \<mapsto> []] ''Intro''))
   \<and> current_subsection
     (process_block [''Intro'' \<mapsto> []] 0
        \<lparr>blk_type = Some ''Section header'', blk_text = Some ''Intro''\<rparr> initial_state)
     = ''Intro''"
  by (simp add: compile_eval)

text \<open>
  C3 (amended): processing a Section-header block whose trimmed text maps to a non-empty
  name whose lower-case form is not \<open>none\<close> flushes the pending text buffer (one entry
  with the old section and subsection fields when the buffer is non-empty, none otherwise),
  then sets \<open>current_section\<close> to the lower-cased mapped name, \<open>current_section_block\<close> to
  this block's marker, and the subsection fields to \<open>subsection_1\<close> and the empty string;
  the buffer is empty afterwards, so the header's text is not in it, and resources and
  counters are untouched. Compiling a header \<open>Intro\<close> mapped to \<open>introduction\<close> followed by
  a text block \<open>hello\<close> gives exactly one entry.
\<close>

theorem header_standard_section:
  assumes "block_type b = ''Section header''"
    and "mp (block_text b) = Some v" and "v \<noteq> []" and "lower v \<noteq> ''none''"
  shows "process_block mp idx b st =
           (flush_current_text st)
             \<lparr>current_section := lower v, current_section_block := block_link idx,
              current_subsection := ''subsection_1'', current_subsection_block := []\<rparr>
         \<and> content_sections (process_block mp idx b st) =
             content_sections st @
               (if current_text_buffer st = [] then []
                else [\<lparr>ce_section = current_section st,
                       ce_section_block = current_section_block st,
                       ce_subsection = current_subsection st,
                       ce_subsection_block = current_subsection_block st,
                       ce_text = join '' '' (current_text_buffer st)\<rparr>])
         \<and> current_text_buffer (process_block mp idx b st) = []
         \<and> current_section (process_block mp idx b st) = lower v
         \<and> current_section_block (process_block mp idx b st) = block_link idx
         \<and> current_subsection (process_block mp idx b st) = ''subsection_1''
         \<and> current_subsection_block (process_block mp idx b st) = []
         \<and> resources (process_block mp idx b st) = resources st
         \<and> last_resource (process_block mp idx b st) = last_resource st
         \<and> image_counter (process_block mp idx b st) = image_counter st
         \<and> table_counter (process_block mp idx b st) = table_counter st
         \<and> compile_parsed_content
             [\<lparr>blk_type = Some ''Section header'', blk_text = Some ''Intro''\<rparr>,
              \<lparr>blk_type = Some ''Text'', blk_text = Some ''hello''\<rparr>]
             [''Intro'' \<mapsto> ''introduction''] =
             \<lparr>out_content =
                [\<lparr>ce_section = ''introduction'', ce_section_block = block_link 0,
                  ce_subsection = ''subsection_1'', ce_subsection_block = [],
                  ce_text = block_link 1 @ ''hello'' @ block_link 1\<rparr>],
              out_resources = []\<rparr>"
proof -
  have step: "process_block mp idx b st =
           (flush_current_text st)
             \<lparr>current_section := lower v, current_section_block := block_link idx,
              current_subsection := ''subsection_1'', current_subsection_block := []\<rparr>"
    using assms by (simp add: process_block_def standard_header_def)
  have example: "compile_parsed_content
             [\<lparr>blk_type = Some ''Section header'', blk_text = Some ''Intro''\<rparr>,
              \<lparr>blk_type = Some ''Text'', blk_text = Some ''hello''\<rparr>]
             [''Intro'' \<mapsto> ''introduction''] =
             \<lparr>out_content =
                [\<lparr>ce_section = ''introduction'', ce_section_block = block_link 0,
                  ce_subsection = ''subsection_1'', ce_subsection_block = [],
                  ce_text = block_link 1 @ ''hello'' @ block_link 1\<rparr>],
              out_resources = []\<rparr>"
    by (simp add: compile_eval)
  show ?thesis
    unfolding step using example by (simp add: flush_content_sections)
qed

theorem header_standard_section_witness:
  "process_block [''Intro'' \<mapsto> ''Introduction''] 3
     \<lparr>blk_type = Some ''Section header'', blk_text = Some '' Intro ''\<rparr>
     (initial_state\<lparr>current_text_buffer := [''a'', ''b'']\<rparr>) =
   initial_state
     \<lparr>content_sections :=
        [\<lparr>ce_section = ''section_1'', ce_section_block = [],
          ce_subsection = ''subsection_1'', ce_subsection_block = [],
          ce_text = ''a b''\<rparr>],
      current_section := ''introduction'', current_section_block := ''[block:3]''\<rparr>"
proof -
  have h1: "block_type \<lparr>blk_type = Some ''Section header'', blk_text = Some '' Intro ''\<rparr>
              = ''Section header''"
    by (simp add: block_type_def)
  have h2: "[''Intro'' \<mapsto> ''Introduction'']
              (block_text \<lparr>blk_type = Some ''Section header'', blk_text = Some '' Intro ''\<rparr>)
              = Some ''Introduction''"
    by (simp add: block_text_def string_eval)
  have h3: "''Introduction'' \<noteq> []" by simp
  have h4: "lower ''Introduction'' \<noteq> ''none''" by (simp add: string_eval)
  show ?thesis
    using header_standard_section
      [where b = "\<lparr>blk_type = Some ''Section header'', blk_text = Some '' Intro ''\<rparr>"
         and mp = "[''Intro'' \<mapsto> ''Introduction'']" and v = "''Introduction''" and idx = 3
         and st = "initial_state\<lparr>current_text_buffer := [''a'', ''b'']\<rparr>", OF h1 h2 h3 h4]
    by (simp add: initial_state_def flush_current_text_def string_eval)
qed

text \<open>
  C4: processing a Section-header block whose trimmed text misses the mapping, or maps to
  a name the compiler reads as "not a section" (\<open>none\<close> in any letter case, or the empty
  string), flushes the pending text buffer, makes the trimmed header text, with its letter
  case untouched, the new \<open>current_subsection\<close>, sets \<open>current_subsection_block\<close> to this
  block's marker, and leaves \<open>current_section\<close> and \<open>current_section_block\<close> as they
  were.
\<close>

theorem header_unmapped_subsection:
  assumes "block_type b = ''Section header''"
    and "mp (block_text b) = None
         \<or> (\<exists>v. mp (block_text b) = Some v \<and> (lower v = ''none'' \<or> v = []))"
  shows "process_block mp idx b st =
           (flush_current_text st)
             \<lparr>current_subsection := block_text b,
              current_subsection_block := block_link idx\<rparr>
         \<and> content_sections (process_block mp idx b st) =
             content_sections st @
               (if current_text_buffer st = [] then []
                else [\<lparr>ce_section = current_section st,
                       ce_section_block = current_section_block st,
                       ce_subsection = current_subsection st,
                       ce_subsection_block = current_subsection_block st,
                       ce_text = join '' '' (current_text_buffer st)\<rparr>])
         \<and> current_text_buffer (process_block mp idx b st) = []
         \<and> current_subsection (process_block mp idx b st) = block_text b
         \<and> current_subsection_block (process_block mp idx b st) = block_link idx
         \<and> current_section (process_block mp idx b st) = current_section st
         \<and> current_section_block (process_block mp idx b st) = current_section_block st
         \<and> resources (process_block mp idx b st) = resources st"
proof -
  have "\<not> standard_header (mp (block_text b))"
    using assms(2) by (auto simp: standard_header_def)
  then have step: "process_block mp idx b st =
           (flush_current_text st)
             \<lparr>current_subsection := block_text b,
              current_subsection_block := block_link idx\<rparr>"
    using assms(1) by (simp add: process_block_def)
  show ?thesis
    unfolding step by (simp add: flush_content_sections)
qed

theorem header_unmapped_subsection_witness:
  "process_block [''Intro'' \<mapsto> ''introduction'', ''Notes'' \<mapsto> ''None''] 2
     \<lparr>blk_type = Some ''Section header'', blk_text = Some ''Background''\<rparr>
     (initial_state\<lparr>current_section := ''methods'', current_section_block := ''[block:0]'',
        current_text_buffer := [''a'']\<rparr>) =
   initial_state
     \<lparr>content_sections :=
        [\<lparr>ce_section = ''methods'', ce_section_block = ''[block:0]'',
          ce_subsection = ''subsection_1'', ce_subsection_block = [],
          ce_text = ''a''\<rparr>],
      current_section := ''methods'', current_section_block := ''[block:0]'',
      current_subsection := ''Background'', current_subsection_block := ''[block:2]''\<rparr>
   \<and> current_subsection
       (process_block [''Intro'' \<mapsto> ''introduction'', ''Notes'' \<mapsto> ''None''] 5
          \<lparr>blk_type = Some ''Section header'', blk_text = Some ''Notes''\<rparr> initial_state)
       = ''Notes''"
proof -
  have h1: "\<And>t. block_type \<lparr>blk_type = Some ''Section header'', blk_text = Some t\<rparr>
              = ''Section header''"
    by (simp add: block_type_def)
  have h2: "[''Intro'' \<mapsto> ''introduction'', ''Notes'' \<mapsto> ''None'']
              (block_text \<lparr>blk_type = Some ''Section header'', blk_text = Some ''Background''\<rparr>)
              = None
            \<or> (\<exists>v. [''Intro'' \<mapsto> ''introduction'', ''Notes'' \<mapsto> ''None'']
              (block_text \<lparr>blk_type = Some ''Section header'', blk_text = Some ''Background''\<rparr>)
              = Some v \<and> (lower v = ''none'' \<or> v = []))"
    by (simp add: block_text_def string_eval)
  have h3: "[''Intro'' \<mapsto> ''introduction'', ''Notes'' \<mapsto> ''None'']
              (block_text \<lparr>blk_type = Some ''Section header'', blk_text = Some ''Notes''\<rparr>)
              = None
            \<or> (\<exists>v. [''Intro'' \<mapsto> ''introduction'', ''Notes'' \<mapsto> ''None'']
              (block_text \<lparr>blk_type = Some ''Section header'', blk_text = Some ''Notes''\<rparr>)
              = Some v \<and> (lower v = ''none'' \<or> v = []))"
    by (simp add: block_text_def string_eval)
  show ?thesis
    using header_unmapped_subsection
      [where b = "\<lparr>blk_type = Some ''Section header'', blk_text = Some ''Background''\<rparr>"
         and mp = "[''Intro'' \<mapsto> ''introduction'', ''Notes'' \<mapsto> ''None'']" and idx = 2
         and st = "initial_state\<lparr>current_section := ''methods'',
           current_section_block := ''[block:0]'', current_text_buffer := [''a'']\<rparr>", OF h1 h2]
      header_unmapped_subsection
      [where b = "\<lparr>blk_type = Some ''Section header'', blk_text = Some ''Notes''\<rparr>"
         and mp = "[''Intro'' \<mapsto> ''introduction'', ''Notes'' \<mapsto> ''None'']" and idx = 5
         and st = initial_state, OF h1 h3]
    by (simp add: initial_state_def flush_current_text_def block_text_def string_eval)
qed

section \<open>Empty input and the default entry\<close>

text \<open>
  C5: compiling the empty block list, with any mapping, returns one default entry
  (\<open>section_1\<close>, \<open>subsection_1\<close>, empty markers, empty text) and no resources. For
  any input: when the loop and the last flush appended no entry, the output content is
  exactly one entry carrying the final section and subsection fields and the empty text;
  otherwise it is the flushed entries and nothing else.
\<close>

theorem empty_input_default_entry:
  "compile_parsed_content [] mp =
     \<lparr>out_content =
        [\<lparr>ce_section = ''section_1'', ce_section_block = [],
          ce_subsection = ''subsection_1'', ce_subsection_block = [],
          ce_text = []\<rparr>],
      out_resources = []\<rparr>
   \<and> (content_sections (flush_current_text (process_blocks mp 0 bs initial_state)) = [] \<longrightarrow>
        out_content (compile_parsed_content bs mp) =
          [\<lparr>ce_section = current_section (process_blocks mp 0 bs initial_state),
            ce_section_block = current_section_block (process_blocks mp 0 bs initial_state),
            ce_subsection = current_subsection (process_blocks mp 0 bs initial_state),
            ce_subsection_block = current_subsection_block (process_blocks mp 0 bs initial_state),
            ce_text = []\<rparr>])
   \<and> (content_sections (flush_current_text (process_blocks mp 0 bs initial_state)) \<noteq> [] \<longrightarrow>
        out_content (compile_parsed_content bs mp) =
          content_sections (flush_current_text (process_blocks mp 0 bs initial_state)))"
  by (simp add: compile_parsed_content_def finish_def)
     (simp add: flush_current_text_def initial_state_def)

theorem empty_input_default_entry_witness:
  "content_sections (flush_current_text (process_blocks Map.empty 0
       [\<lparr>blk_type = Some ''Section header'', blk_text = Some ''Background''\<rparr>,
        \<lparr>blk_type = Some ''Text'', blk_text = Some ''  ''\<rparr>] initial_state)) = []
   \<and> out_content (compile_parsed_content
       [\<lparr>blk_type = Some ''Section header'', blk_text = Some ''Background''\<rparr>,
        \<lparr>blk_type = Some ''Text'', blk_text = Some ''  ''\<rparr>] Map.empty) =
       [\<lparr>ce_section = ''section_1'', ce_section_block = [],
         ce_subsection = ''Background'', ce_subsection_block = ''[block:0]'',
         ce_text = []\<rparr>]
   \<and> content_sections (flush_current_text (process_blocks Map.empty 0
       [\<lparr>blk_type = Some ''Text'', blk_text = Some ''x''\<rparr>] initial_state)) \<noteq> []
   \<and> out_content (compile_parsed_content
       [\<lparr>blk_type = Some ''Text'', blk_text = Some ''x''\<rparr>] Map.empty) =
       [\<lparr>ce_section = ''section_1'', ce_section_block = [],
         ce_subsection = ''subsection_1'', ce_subsection_block = [],
         ce_text = ''[block:0]x[block:0]''\<rparr>]"
  using empty_input_default_entry [of Map.empty
      "[\<lparr>blk_type = Some ''Section header'', blk_text = Some ''Background''\<rparr>,
        \<lparr>blk_type = Some ''Text'', blk_text = Some ''  ''\<rparr>]"]
    empty_input_default_entry [of Map.empty "[\<lparr>blk_type = Some ''Text'', blk_text = Some ''x''\<rparr>]"]
  by (simp add: flush_current_text_def process_block_def initial_state_def block_type_def
        block_text_def standard_header_def string_eval)

section \<open>Resources and captions\<close>

lemma block_link_nonempty [simp]: "block_link idx \<noteq> []"
  by (simp add: block_link_def)

lemma wrap_nonempty [simp]: "wrap idx t \<noteq> []"
  by (simp add: wrap_def)

lemma update_last: "rs \<noteq> [] \<Longrightarrow> rs[length rs - Suc 0 := x] = butlast rs @ [x]"
  by (induction rs rule: rev_induct) auto

lemma nth_last: "rs \<noteq> [] \<Longrightarrow> rs ! (length rs - Suc 0) = last rs"
  by (simp add: last_conv_nth)

lemma pending_snoc_fresh:
  "description r = [] \<Longrightarrow> pending (rs @ [r]) idx bs = rs @ [described r (claiming_caption idx bs)]"
  by (simp add: pending_def)

lemma process_block_plain:
  assumes "block_type b \<noteq> ''Picture''" "block_type b \<noteq> ''Table''" "block_type b \<noteq> ''Caption''"
  shows "resources (process_block mp idx b st) = resources st"
    and "last_resource (process_block mp idx b st) = last_resource st"
    and "image_counter (process_block mp idx b st) = image_counter st"
    and "table_counter (process_block mp idx b st) = table_counter st"
  using assms by (simp_all add: process_block_def)

lemma process_block_picture:
  assumes "block_type b = ''Picture''"
  shows "resources (process_block mp idx b st) = resources st @
           [\<lparr>reference = image_ref (image_counter st), content = block_text b,
             content_type = ''image'', description = [],
             content_block = idx, description_block = None\<rparr>]"
    and "last_resource (process_block mp idx b st) = Some (length (resources st))"
    and "image_counter (process_block mp idx b st) = Suc (image_counter st)"
    and "table_counter (process_block mp idx b st) = table_counter st"
  using assms by (simp_all add: process_block_def)

lemma process_block_table:
  assumes "block_type b = ''Table''"
  shows "resources (process_block mp idx b st) = resources st @
           [\<lparr>reference = table_ref (table_counter st), content = block_text b,
             content_type = ''table'', description = [],
             content_block = idx, description_block = None\<rparr>]"
    and "last_resource (process_block mp idx b st) = Some (length (resources st))"
    and "image_counter (process_block mp idx b st) = image_counter st"
    and "table_counter (process_block mp idx b st) = Suc (table_counter st)"
  using assms by (simp_all add: process_block_def)

lemma process_block_caption:
  assumes "block_type b = ''Caption''" "last_is_newest st"
  shows "resources (process_block mp idx b st) =
           (if resources st = [] then []
            else butlast (resources st) @
              [if description (last (resources st)) = []
               then (last (resources st))
                      \<lparr>description := wrap idx (block_text b), description_block := Some idx\<rparr>
               else last (resources st)])"
    and "last_resource (process_block mp idx b st) = last_resource st"
    and "image_counter (process_block mp idx b st) = image_counter st"
    and "table_counter (process_block mp idx b st) = table_counter st"
  using assms
  by (simp_all add: process_block_def last_is_newest_def update_last nth_last wrap_def
        split: option.splits)

lemma process_blocks_resources:
  "last_is_newest st \<Longrightarrow>
   resources (process_blocks mp idx bs st) =
     pending (resources st) idx bs @
     expected_resources idx (image_counter st) (table_counter st) bs"
proof (induction bs arbitrary: idx st)
  case Nil
  then show ?case by (simp add: pending_def described_def)
next
  case (Cons b bs)
  let ?st = "process_block mp idx b st"
  consider (pic) "block_type b = ''Picture''" | (tab) "block_type b = ''Table''"
    | (cap) "block_type b = ''Caption''"
    | (other) "block_type b \<noteq> ''Picture''" "block_type b \<noteq> ''Table''"
        "block_type b \<noteq> ''Caption''"
    by blast
  then show ?case
  proof cases
    case pic
    have new: "last_is_newest ?st"
      by (simp add: last_is_newest_def process_block_picture [OF pic])
    show ?thesis
      using Cons.IH [OF new] pic
      by (simp add: process_block_picture [OF pic] pending_snoc_fresh)
         (simp add: pending_def described_def)
  next
    case tab
    have new: "last_is_newest ?st"
      by (simp add: last_is_newest_def process_block_table [OF tab])
    show ?thesis
      using Cons.IH [OF new] tab
      by (simp add: process_block_table [OF tab] pending_snoc_fresh)
         (simp add: pending_def described_def)
  next
    case cap
    have new: "last_is_newest ?st"
      using Cons.prems
      by (simp add: last_is_newest_def process_block_caption [OF cap Cons.prems])
    show ?thesis
      using Cons.IH [OF new] cap
      by (simp add: process_block_caption [OF cap Cons.prems])
         (simp add: pending_def described_def)
  next
    case other
    have new: "last_is_newest ?st"
      using Cons.prems by (simp add: last_is_newest_def process_block_plain [OF other])
    show ?thesis
      using Cons.IH [OF new] other
      by (simp add: process_block_plain [OF other] pending_def)
  qed
qed

lemma compile_resources_expected:
  "out_resources (compile_parsed_content bs mp) = expected_resources 0 1 1 bs"
  using process_blocks_resources [of initial_state mp 0 bs]
  by (simp add: compile_parsed_content_def finish_def last_is_newest_def pending_def)
     (simp add: initial_state_def)

lemma described_fields [simp]:
  "reference (described r c) = reference r"
  "content (described r c) = content r"
  "content_type (described r c) = content_type r"
  "content_block (described r c) = content_block r"
  by (simp_all add: described_def split: option.splits)

lemma claiming_caption_found:
  "list_all is_flow_block mid \<Longrightarrow> block_type c = ''Caption'' \<Longrightarrow>
   claiming_caption idx (mid @ c # post) = Some (idx + length mid, block_text c)"
  by (induction mid arbitrary: idx) (simp_all add: is_flow_block_def)

lemma claiming_caption_none:
  "list_all is_flow_block mid \<Longrightarrow> post = [] \<or> is_resource_block (hd post) \<Longrightarrow>
   claiming_caption idx (mid @ post) = None"
proof (induction mid arbitrary: idx)
  case Nil
  then show ?case by (cases post) (auto simp: is_resource_block_def)
next
  case (Cons m mid)
  then show ?case by (simp add: is_flow_block_def)
qed

lemma expected_resources_nth:
  assumes "is_resource_block r"
  shows "length (filter is_resource_block pre) < length (expected_resources idx ic tc (pre @ r # rest))
     \<and> (\<exists>ref ty.
          expected_resources idx ic tc (pre @ r # rest) ! length (filter is_resource_block pre) =
          described \<lparr>reference = ref, content = block_text r, content_type = ty,
                     description = [], content_block = idx + length pre,
                     description_block = None\<rparr>
            (claiming_caption (Suc (idx + length pre)) rest))"
proof (induction pre arbitrary: idx ic tc)
  case Nil
  then show ?case using assms by (auto simp: is_resource_block_def)
next
  case (Cons p pre)
  show ?case
    using Cons.IH [of "Suc idx" "Suc ic" tc] Cons.IH [of "Suc idx" ic "Suc tc"]
      Cons.IH [of "Suc idx" ic tc]
    by (auto simp: is_resource_block_def)
qed

lemma description_kept:
  assumes "k < length (resources st)" and "description (resources st ! k) \<noteq> []"
  shows "k < length (resources (process_block mp idx b st))
       \<and> resources (process_block mp idx b st) ! k = resources st ! k"
  using assms
proof -
  have upd: "\<And>i r. description (resources st ! i) = [] \<Longrightarrow>
                (resources st)[i := r] ! k = resources st ! k"
    using assms(2) by (metis nth_list_update_neq)
  show ?thesis
    using assms(1) by (auto simp: process_block_def nth_append upd split: option.splits)
qed

lemma upt_from: "[ic ..< Suc (ic + n)] = ic # [Suc ic ..< Suc (ic + n)]"
  by (simp add: upt_conv_Cons del: upt_Suc)

lemma expected_image_references:
  "map reference (filter (\<lambda>r. content_type r = ''image'') (expected_resources idx ic tc bs)) =
     map image_ref [ic ..< ic + length (filter (\<lambda>b. block_type b = ''Picture'') bs)]"
proof (induction bs arbitrary: idx ic tc)
  case Nil
  then show ?case by simp
next
  case (Cons b bs)
  show ?case
    using Cons.IH [of "Suc idx" "Suc ic" tc] Cons.IH [of "Suc idx" ic "Suc tc"]
      Cons.IH [of "Suc idx" ic tc]
    by (simp add: upt_from del: upt_Suc)
qed

lemma expected_table_references:
  "map reference (filter (\<lambda>r. content_type r = ''table'') (expected_resources idx ic tc bs)) =
     map table_ref [tc ..< tc + length (filter (\<lambda>b. block_type b = ''Table'') bs)]"
proof (induction bs arbitrary: idx ic tc)
  case Nil
  then show ?case by simp
next
  case (Cons b bs)
  show ?case
    using Cons.IH [of "Suc idx" "Suc ic" tc] Cons.IH [of "Suc idx" ic "Suc tc"]
      Cons.IH [of "Suc idx" ic tc]
    by (simp add: upt_from del: upt_Suc)
qed

text \<open>
  C2: the compiled resources are the expected ones: each resource's description is the text
  of the first Caption block after it and before any other Picture or Table block, wrapped
  with that caption's marker, and \<open>description_block\<close> is the caption's index; with no
  such caption the description stays empty and \<open>description_block\<close> absent. A
  description that is non-empty is never written again by a later block (and a caption
  always writes a non-empty one), so it is set at most once. Compiling a Picture
  \<open>imgdata\<close> followed by a Caption \<open>Fig 1\<close> gives one resource with the caption as its
  description and one content entry holding the resource link only.
\<close>

theorem caption_claims_resource:
  "out_resources (compile_parsed_content bs mp) = expected_resources 0 1 1 bs
   \<and> (is_resource_block r \<longrightarrow> list_all is_flow_block mid \<longrightarrow> block_type c = ''Caption'' \<longrightarrow>
        (let rs = out_resources (compile_parsed_content (pre @ r # mid @ c # post) mp);
             n = length (filter is_resource_block pre)
         in n < length rs \<and> content_block (rs ! n) = length pre
            \<and> content (rs ! n) = block_text r
            \<and> description (rs ! n) =
                block_link (Suc (length pre + length mid)) @ block_text c @
                block_link (Suc (length pre + length mid))
            \<and> description_block (rs ! n) = Some (Suc (length pre + length mid))))
   \<and> (is_resource_block r \<longrightarrow> list_all is_flow_block mid \<longrightarrow>
        (rest = [] \<or> is_resource_block (hd rest)) \<longrightarrow>
        (let rs = out_resources (compile_parsed_content (pre @ r # mid @ rest) mp);
             n = length (filter is_resource_block pre)
         in n < length rs \<and> content_block (rs ! n) = length pre
            \<and> description (rs ! n) = [] \<and> description_block (rs ! n) = None))
   \<and> (k < length (resources st) \<longrightarrow> description (resources st ! k) \<noteq> [] \<longrightarrow>
        k < length (resources (process_block mp idx b st))
        \<and> resources (process_block mp idx b st) ! k = resources st ! k)
   \<and> compile_parsed_content
        [\<lparr>blk_type = Some ''Picture'', blk_text = Some ''imgdata''\<rparr>,
         \<lparr>blk_type = Some ''Caption'', blk_text = Some ''Fig 1''\<rparr>] mp =
      \<lparr>out_content =
         [\<lparr>ce_section = ''section_1'', ce_section_block = [],
           ce_subsection = ''subsection_1'', ce_subsection_block = [],
           ce_text = block_link 0 @ ''[image:1]'' @ block_link 0\<rparr>],
       out_resources =
         [\<lparr>reference = ''[image:1]'', content = ''imgdata'', content_type = ''image'',
           description = block_link 1 @ ''Fig 1'' @ block_link 1,
           content_block = 0, description_block = Some 1\<rparr>]\<rparr>"
proof -
  have bound: "is_resource_block r \<Longrightarrow> list_all is_flow_block mid \<Longrightarrow> block_type c = ''Caption'' \<Longrightarrow>
        (let rs = out_resources (compile_parsed_content (pre @ r # mid @ c # post) mp);
             n = length (filter is_resource_block pre)
         in n < length rs \<and> content_block (rs ! n) = length pre
            \<and> content (rs ! n) = block_text r
            \<and> description (rs ! n) =
                block_link (Suc (length pre + length mid)) @ block_text c @
                block_link (Suc (length pre + length mid))
            \<and> description_block (rs ! n) = Some (Suc (length pre + length mid)))"
    using expected_resources_nth [of r pre 0 1 1 "mid @ c # post"]
      claiming_caption_found [of mid c "Suc (length pre)" post]
    by (auto simp: compile_resources_expected described_def wrap_def Let_def)
  have unbound: "is_resource_block r \<Longrightarrow> list_all is_flow_block mid \<Longrightarrow>
        rest = [] \<or> is_resource_block (hd rest) \<Longrightarrow>
        (let rs = out_resources (compile_parsed_content (pre @ r # mid @ rest) mp);
             n = length (filter is_resource_block pre)
         in n < length rs \<and> content_block (rs ! n) = length pre
            \<and> description (rs ! n) = [] \<and> description_block (rs ! n) = None)"
    using expected_resources_nth [of r pre 0 1 1 "mid @ rest"]
      claiming_caption_none [of mid rest "Suc (length pre)"]
    by (auto simp: compile_resources_expected described_def Let_def)
  have example: "compile_parsed_content
        [\<lparr>blk_type = Some ''Picture'', blk_text = Some ''imgdata''\<rparr>,
         \<lparr>blk_type = Some ''Caption'', blk_text = Some ''Fig 1''\<rparr>] mp =
      \<lparr>out_content =
         [\<lparr>ce_section = ''section_1'', ce_section_block = [],
           ce_subsection = ''subsection_1'', ce_subsection_block = [],
           ce_text = block_link 0 @ ''[image:1]'' @ block_link 0\<rparr>],
       out_resources =
         [\<lparr>reference = ''[image:1]'', content = ''imgdata'', content_type = ''image'',
           description = block_link 1 @ ''Fig 1'' @ block_link 1,
           content_block = 0, description_block = Some 1\<rparr>]\<rparr>"
    by (simp add: compile_eval)
  show ?thesis
    using bound unbound example description_kept [of k st mp idx b]
    by (simp add: compile_resources_expected)
qed

theorem caption_claims_resource_witness:
  "is_resource_block \<lparr>blk_type = Some ''Table'', blk_text = Some ''t''\<rparr>
   \<and> list_all is_flow_block
       [\<lparr>blk_type = Some ''Section header'', blk_text = Some ''H''\<rparr>,
        \<lparr>blk_type = Some ''Text'', blk_text = Some ''x''\<rparr>]
   \<and> block_type \<lparr>blk_type = Some ''Caption'', blk_text = Some '' Cap ''\<rparr> = ''Caption''
   \<and> map description (out_resources (compile_parsed_content
       [\<lparr>blk_type = Some ''Picture'', blk_text = Some ''p''\<rparr>,
        \<lparr>blk_type = Some ''Table'', blk_text = Some ''t''\<rparr>,
        \<lparr>blk_type = Some ''Section header'', blk_text = Some ''H''\<rparr>,
        \<lparr>blk_type = Some ''Text'', blk_text = Some ''x''\<rparr>,
        \<lparr>blk_type = Some ''Caption'', blk_text = Some '' Cap ''\<rparr>,
        \<lparr>blk_type = Some ''Caption'', blk_text = Some ''later''\<rparr>] Map.empty))
     = [[], ''[block:4]Cap[block:4]'']
   \<and> map description_block (out_resources (compile_parsed_content
       [\<lparr>blk_type = Some ''Picture'', blk_text = Some ''p''\<rparr>,
        \<lparr>blk_type = Some ''Table'', blk_text = Some ''t''\<rparr>,
        \<lparr>blk_type = Some ''Section header'', blk_text = Some ''H''\<rparr>,
        \<lparr>blk_type = Some ''Text'', blk_text = Some ''x''\<rparr>,
        \<lparr>blk_type = Some ''Caption'', blk_text = Some '' Cap ''\<rparr>,
        \<lparr>blk_type = Some ''Caption'', blk_text = Some ''later''\<rparr>] Map.empty))
     = [None, Some 4]
   \<and> resources (process_block Map.empty 7
        \<lparr>blk_type = Some ''Caption'', blk_text = Some ''again''\<rparr>
        (initial_state
           \<lparr>resources := [\<lparr>reference = ''[image:1]'', content = ''p'', content_type = ''image'',
              description = ''[block:4]Cap[block:4]'', content_block = 3,
              description_block = Some 4\<rparr>],
            last_resource := Some 0\<rparr>)) ! 0
     = \<lparr>reference = ''[image:1]'', content = ''p'', content_type = ''image'',
              description = ''[block:4]Cap[block:4]'', content_block = 3,
              description_block = Some 4\<rparr>"
  using caption_claims_resource
    [where r = "\<lparr>blk_type = Some ''Table'', blk_text = Some ''t''\<rparr>"
       and mid = "[\<lparr>blk_type = Some ''Section header'', blk_text = Some ''H''\<rparr>,
                   \<lparr>blk_type = Some ''Text'', blk_text = Some ''x''\<rparr>]"
       and c = "\<lparr>blk_type = Some ''Caption'', blk_text = Some '' Cap ''\<rparr>"
       and pre = "[\<lparr>blk_type = Some ''Picture'', blk_text = Some ''p''\<rparr>]"
       and post = "[\<lparr>blk_type = Some ''Caption'', blk_text = Some ''later''\<rparr>]"
       and rest = "[]" and mp = Map.empty and k = 0 and idx = 7
       and b = "\<lparr>blk_type = Some ''Caption'', blk_text = Some ''again''\<rparr>"
       and st = "initial_state
           \<lparr>resources := [\<lparr>reference = ''[image:1]'', content = ''p'', content_type = ''image'',
              description = ''[block:4]Cap[block:4]'', content_block = 3,
              description_block = Some 4\<rparr>],
            last_resource := Some 0\<rparr>"
       and bs = "[]"]
  by (simp add: is_resource_block_def is_flow_block_def compile_eval)

text \<open>
  C7: the references of the image resources of a compiled document are \<open>[image:1]\<close>,
  \<open>[image:2]\<close>, ... up to the number of Picture blocks, in order, and those of the
  table resources are \<open>[table:1]\<close>, ... up to the number of Table blocks; each sequence
  depends on the blocks of its own type only, and every compilation starts both at 1.
\<close>

theorem resource_references_count_up:
  "map reference (filter (\<lambda>r. content_type r = ''image'')
       (out_resources (compile_parsed_content bs mp))) =
     map image_ref [1 ..< Suc (length (filter (\<lambda>b. block_type b = ''Picture'') bs))]
   \<and> map reference (filter (\<lambda>r. content_type r = ''table'')
       (out_resources (compile_parsed_content bs mp))) =
     map table_ref [1 ..< Suc (length (filter (\<lambda>b. block_type b = ''Table'') bs))]
   \<and> image_ref n = ''[image:'' @ str_nat n @ '']''
   \<and> table_ref n = ''[table:'' @ str_nat n @ '']''"
  using expected_image_references [of 0 1 1 bs] expected_table_references [of 0 1 1 bs]
  by (simp add: compile_resources_expected image_ref_def table_ref_def)

section \<open>Decoding markers\<close>

lemma is_digit_digit_char: "d < 10 \<Longrightarrow> is_digit (digit_char d)"
  by (simp add: is_digit_def digit_char_def)

lemma digit_val_digit_char: "d < 10 \<Longrightarrow> digit_val (digit_char d) = d"
  by (simp add: digit_val_def digit_char_def)

lemma str_nat_digits: "c \<in> set (str_nat n) \<Longrightarrow> is_digit c"
proof (induction n arbitrary: c rule: str_nat.induct)
  case (1 n)
  then show ?case
    by (subst (asm) (2) str_nat.simps) (auto simp: is_digit_digit_char split: if_splits)
qed

lemma str_nat_nonempty [simp]: "str_nat n \<noteq> []"
  by (subst str_nat.simps) simp

lemma nat_of_digits_snoc: "nat_of_digits (ds @ [c]) = 10 * nat_of_digits ds + digit_val c"
  by (simp add: nat_of_digits_def)

lemma nat_of_digits_str_nat: "nat_of_digits (str_nat n) = n"
proof (induction n rule: str_nat.induct)
  case (1 n)
  show ?case
  proof (cases "n < 10")
    case True
    then show ?thesis
      by (subst str_nat.simps) (simp add: nat_of_digits_def digit_val_digit_char)
  next
    case False
    then show ?thesis
      using 1 by (subst str_nat.simps) (simp add: nat_of_digits_snoc digit_val_digit_char)
  qed
qed

lemma not_digit_brackets [simp]: "\<not> is_digit CHR ''[''" "\<not> is_digit CHR '']''"
  by (simp_all add: is_digit_def)

lemma takeWhile_str_nat [simp]:
  "takeWhile is_digit (str_nat i @ CHR '']'' # v) = str_nat i"
  "dropWhile is_digit (str_nat i @ CHR '']'' # v) = CHR '']'' # v"
  by (simp_all add: takeWhile_append2 dropWhile_append2 str_nat_digits)

lemma match_block_link_at_marker:
  "match_block_link (block_link i @ v) = Some (str_nat i, v)"
  by (simp add: match_block_link_def block_link_def)

lemma short_prefix_not_marker:
  assumes "u \<noteq> []" and "length u < 7"
  shows "take 7 (u @ CHR ''['' # w) \<noteq> ''[block:''"
proof
  assume eq: "take 7 (u @ CHR ''['' # w) = ''[block:''"
  have "take 7 (u @ CHR ''['' # w) ! length u = CHR ''[''"
    using assms(2) by (simp add: nth_append)
  then have "''[block:'' ! length u = CHR ''[''"
    using eq by simp
  moreover have "0 < length u" using assms(1) by simp
  then have "length u = 1 \<or> length u = 2 \<or> length u = 3 \<or> length u = 4
      \<or> length u = 5 \<or> length u = 6"
    using assms(2) by arith
  ultimately show False by auto
qed

lemma match_block_link_before_bracket:
  assumes "u \<noteq> []"
  shows "match_block_link (u @ CHR ''['' # w) =
           map_option (\<lambda>(ds, r). (ds, r @ CHR ''['' # w)) (match_block_link u)"
proof (cases "length u < 7")
  case True
  have "take 7 u \<noteq> ''[block:''"
  proof
    assume "take 7 u = ''[block:''"
    then have "length (take 7 u) = 7" by simp
    then show False using True by simp
  qed
  then show ?thesis
    using short_prefix_not_marker [OF assms True, of w] by (simp add: match_block_link_def)
next
  case False
  let ?d = "drop 7 u"
  have tk: "take 7 (u @ CHR ''['' # w) = take 7 u" and dr: "drop 7 (u @ CHR ''['' # w) = ?d @ CHR ''['' # w"
    using False by simp_all
  show ?thesis
  proof (cases "\<forall>c \<in> set ?d. is_digit c")
    case True
    then have "takeWhile is_digit (?d @ CHR ''['' # w) = ?d"
      and "dropWhile is_digit (?d @ CHR ''['' # w) = CHR ''['' # w"
      and "dropWhile is_digit ?d = []"
      by (simp_all add: takeWhile_append2 dropWhile_append2)
    then show ?thesis
      by (simp add: match_block_link_def tk dr del: drop_append take_append)
  next
    case False
    then obtain c where c: "c \<in> set ?d" "\<not> is_digit c" by blast
    then have "takeWhile is_digit (?d @ CHR ''['' # w) = takeWhile is_digit ?d"
      and "dropWhile is_digit (?d @ CHR ''['' # w) = dropWhile is_digit ?d @ CHR ''['' # w"
      and "dropWhile is_digit ?d \<noteq> []"
      by (simp_all add: takeWhile_append1 dropWhile_append1) (use c in auto)
    then show ?thesis
      by (simp add: match_block_link_def tk dr Let_def del: drop_append take_append)
  qed
qed

lemma re_split_nonempty [simp]: "re_split acc s \<noteq> []"
  by (induction acc s rule: re_split.induct) (auto split: option.splits)

lemma block_link_Cons: "block_link i @ v = CHR ''['' # ''block:'' @ str_nat i @ CHR '']'' # v"
  by (simp add: block_link_def)

lemma re_split_at_marker:
  "re_split acc (u @ block_link i @ v) = re_split acc u @ block_link i # re_split [] v"
proof (induction acc u rule: re_split.induct)
  case (1 acc)
  have "re_split acc (block_link i @ v) = acc # block_link i # re_split [] v"
    using match_block_link_at_marker [of i v]
    by (simp add: block_link_Cons) (simp add: block_link_def)
  then show ?case by simp
next
  case (2 acc c cs)
  have m: "match_block_link ((c # cs) @ block_link i @ v) =
      map_option (\<lambda>(ds, r). (ds, r @ block_link i @ v)) (match_block_link (c # cs))"
    using match_block_link_before_bracket [of "c # cs" "''block:'' @ str_nat i @ CHR '']'' # v"]
    by (simp add: block_link_Cons)
  show ?case
  proof (cases "match_block_link (c # cs)")
    case None
    then show ?thesis using m "2.IH"(1) by simp
  next
    case (Some p)
    obtain ds rest where p: "p = (ds, rest)" by (cases p)
    have here: "match_block_link (c # cs) = Some (ds, rest)"
      using Some p by simp
    have ih: "re_split [] (rest @ block_link i @ v) =
        re_split [] rest @ block_link i # re_split [] v"
      using "2.IH"(2) here by blast
    have there: "match_block_link (c # cs @ block_link i @ v) = Some (ds, rest @ block_link i @ v)"
      using m here by simp
    show ?thesis by (simp add: here there ih)
  qed
qed

lemma span_of_part_block_link [simp]: "span_of_part (block_link i) = Link_span i (block_link i)"
  using match_block_link_at_marker [of i "[]"]
  by (simp add: span_of_part_def nat_of_digits_str_nat)

lemma spans_at_marker:
  "spans_of_text (u @ block_link i @ v) =
     spans_of_text u @ Link_span i (block_link i) # spans_of_text v"
  by (simp add: spans_of_text_def re_split_at_marker)

lemma re_split_no_link: "\<not> has_block_link s \<Longrightarrow> re_split acc s = [acc @ s]"
  by (induction acc s rule: re_split.induct) (auto split: option.splits)

lemma no_link_no_match: "\<not> has_block_link s \<Longrightarrow> match_block_link s = None"
  by (cases s) (auto simp: match_block_link_def split: option.splits)

lemma spans_no_link: "\<not> has_block_link s \<Longrightarrow> spans_of_text s = [Plain_span s]"
  by (simp add: spans_of_text_def re_split_no_link span_of_part_def no_link_no_match)

lemma link_indices_append: "link_indices (xs @ ys) = link_indices xs @ link_indices ys"
  by (induction xs rule: link_indices.induct) simp_all

lemma decoded_at_marker:
  "decoded_indices (u @ block_link i @ v) = decoded_indices u @ i # decoded_indices v"
  by (simp add: decoded_indices_def spans_at_marker link_indices_append)

lemma decoded_no_link: "\<not> has_block_link s \<Longrightarrow> decoded_indices s = []"
  by (simp add: decoded_indices_def spans_no_link)



lemma span_text_span_of_part [simp]: "span_text (span_of_part part) = part"
  by (simp add: span_of_part_def split: option.splits)


lemma wrapped_mono:
  assumes "wrapped n s" and "n \<le> n'"
  shows "wrapped n' s"
proof -
  obtain i t where "i < n" and s: "s = block_link i @ t @ block_link i"
    using assms(1) unfolding wrapped_def by blast
  then have "i < n'" using assms(2) by simp
  then show ?thesis unfolding wrapped_def using s by blast
qed

lemma wrappedI: "i < n \<Longrightarrow> wrapped n (block_link i @ t @ block_link i)"
  by (auto simp: wrapped_def)

lemma joined_spans_mono: "joined_spans n s \<Longrightarrow> n \<le> n' \<Longrightarrow> joined_spans n' s"
  unfolding joined_spans_def list_all_iff by (blast intro: wrapped_mono)

lemma spans_wrapped_mono: "spans_wrapped n st \<Longrightarrow> n \<le> n' \<Longrightarrow> spans_wrapped n' st"
  unfolding spans_wrapped_def list_all_iff by (blast intro: wrapped_mono joined_spans_mono)

lemma spans_wrapped_flush: "spans_wrapped n st \<Longrightarrow> spans_wrapped n (flush_current_text st)"
  by (auto simp: spans_wrapped_def flush_current_text_def joined_spans_def)

lemma list_all_update: "list_all P xs \<Longrightarrow> P x \<Longrightarrow> list_all P (xs[i := x])"
  unfolding list_all_iff using set_update_subset_insert [of xs i x] by auto

lemma spans_wrapped_step:
  assumes "spans_wrapped (Suc idx) st"
  shows "spans_wrapped (Suc idx) (process_block mp idx b st)"
proof -
  have fl: "spans_wrapped (Suc idx) (flush_current_text st)"
    using assms by (rule spans_wrapped_flush)
  have w: "\<And>t. wrapped (Suc idx) (block_link idx @ t @ block_link idx)"
    by (simp add: wrappedI)
  have w0: "wrapped (Suc idx) (block_link idx @ block_link idx)"
    using w [of "[]"] by simp
  show ?thesis
    using assms fl
    by (auto simp: process_block_def spans_wrapped_def list_all_update w w0 split: option.splits)
qed

lemma spans_wrapped_process_blocks:
  "spans_wrapped n st \<Longrightarrow> n \<le> idx \<Longrightarrow>
   spans_wrapped (idx + length bs) (process_blocks mp idx bs st)"
proof (induction bs arbitrary: n idx st)
  case Nil
  then show ?case by (simp add: spans_wrapped_mono)
next
  case (Cons b bs)
  have "spans_wrapped (Suc idx) st"
    using Cons.prems by (simp add: spans_wrapped_mono)
  then have "spans_wrapped (Suc idx) (process_block mp idx b st)"
    by (rule spans_wrapped_step)
  from Cons.IH [OF this, of "Suc idx"] show ?case by simp
qed

lemma spans_wrapped_initial: "spans_wrapped 0 initial_state"
  by (simp add: spans_wrapped_def initial_state_def)


lemma grouped_append:
  assumes "grouped st spans" and "content_sections st' = content_sections st"
    and "current_text_buffer st' = current_text_buffer st @ xs"
  shows "grouped st' (spans @ xs)"
  using assms unfolding grouped_def by auto

lemma grouped_flush:
  assumes "grouped st spans"
  shows "grouped (flush_current_text st) spans"
proof -
  obtain groups where g: "map ce_text (content_sections st) = map (join '' '') groups"
    and c: "concat groups @ current_text_buffer st = spans"
    using assms unfolding grouped_def by blast
  show ?thesis
  proof (cases "current_text_buffer st = []")
    case True
    then show ?thesis using assms by (simp add: flush_current_text_def)
  next
    case False
    have "map ce_text (content_sections (flush_current_text st)) =
        map (join '' '') (groups @ [current_text_buffer st])"
      using False g by (simp add: flush_current_text_def)
    moreover have "concat (groups @ [current_text_buffer st]) @
        current_text_buffer (flush_current_text st) = spans"
      using c by simp
    ultimately show ?thesis unfolding grouped_def by blast
  qed
qed

lemma grouped_step:
  assumes "grouped st spans"
  shows "grouped (process_block mp idx b st)
           (spans @ map marked (produced_spans idx (image_counter st) (table_counter st)
              (last_resource st \<noteq> None) [b]))"
proof (cases "block_type b = ''Section header''")
  case True
  have "grouped (process_block mp idx b st) (spans @ [])"
    using grouped_flush [OF assms] True
    by (intro grouped_append [where st = "flush_current_text st"])
       (simp_all add: process_block_def)
  then show ?thesis using True by simp
next
  case False
  show ?thesis
    using False
    by (intro grouped_append [OF assms])
       (auto simp: process_block_def marked_def split: option.splits)
qed

lemma counters_step:
  "image_counter (process_block mp idx b st) =
     (if block_type b = ''Picture'' then Suc (image_counter st) else image_counter st)"
  "table_counter (process_block mp idx b st) =
     (if block_type b = ''Table'' then Suc (table_counter st) else table_counter st)"
  by (auto simp: process_block_def split: option.splits)

lemma last_resource_seen:
  "(last_resource (process_block mp idx b st) \<noteq> None) =
     (last_resource st \<noteq> None \<or> block_type b = ''Picture'' \<or> block_type b = ''Table'')"
  by (auto simp: process_block_def split: option.splits)

lemma produced_spans_Cons:
  "produced_spans idx ic tc seen (b # bs) =
     produced_spans idx ic tc seen [b] @
     produced_spans (Suc idx)
       (if block_type b = ''Picture'' then Suc ic else ic)
       (if block_type b = ''Table'' then Suc tc else tc)
       (seen \<or> block_type b = ''Picture'' \<or> block_type b = ''Table'') bs"
  by simp

lemma grouped_process_blocks:
  "grouped st spans \<Longrightarrow>
   grouped (process_blocks mp idx bs st)
     (spans @ map marked (produced_spans idx (image_counter st) (table_counter st)
        (last_resource st \<noteq> None) bs))"
proof (induction bs arbitrary: idx st spans)
  case Nil
  then show ?case by simp
next
  case (Cons b bs)
  let ?st = "process_block mp idx b st"
  have "grouped ?st (spans @ map marked (produced_spans idx (image_counter st)
      (table_counter st) (last_resource st \<noteq> None) [b]))"
    using Cons.prems by (rule grouped_step)
  from Cons.IH [OF this, of "Suc idx"] show ?case
    unfolding process_blocks.simps counters_step last_resource_seen
    by (subst produced_spans_Cons) simp
qed

lemma compile_grouped:
  "\<exists>groups. map ce_text (out_content (compile_parsed_content bs mp)) = map (join '' '') groups
     \<and> concat groups = map marked (produced_spans 0 1 1 False bs)"
proof -
  let ?st = "flush_current_text (process_blocks mp 0 bs initial_state)"
  have "grouped initial_state []"
    unfolding grouped_def by (simp add: initial_state_def)
  from grouped_process_blocks [OF this, of mp 0 bs]
  have "grouped (process_blocks mp 0 bs initial_state)
      (map marked (produced_spans 0 1 1 False bs))"
    by (simp add: initial_state_def)
  then have "grouped ?st (map marked (produced_spans 0 1 1 False bs))"
    by (rule grouped_flush)
  then obtain groups where g: "map ce_text (content_sections ?st) = map (join '' '') groups"
    and c: "concat groups = map marked (produced_spans 0 1 1 False bs)"
    unfolding grouped_def by auto
  show ?thesis
  proof (cases "content_sections ?st = []")
    case True
    then have "groups = []" using g by simp
    then have "map marked (produced_spans 0 1 1 False bs) = concat [[]]" using c by simp
    moreover have "map ce_text (out_content (compile_parsed_content bs mp)) =
        map (join '' '') [[]]"
      using True by (simp add: compile_parsed_content_def finish_def)
    ultimately show ?thesis by metis
  next
    case False
    then have "out_content (compile_parsed_content bs mp) = content_sections ?st"
      by (simp add: compile_parsed_content_def finish_def)
    then show ?thesis using g c by auto
  qed
qed

lemma produced_spans_from: "(i, t) \<in> set (produced_spans idx ic tc seen bs) \<Longrightarrow> idx \<le> i"
proof (induction bs arbitrary: idx ic tc seen)
  case Nil
  then show ?case by simp
next
  case (Cons b bs)
  then show ?case by (fastforce split: if_splits dest: Suc_leD)
qed

lemma produced_spans_origin:
  "(i, t) \<in> set (produced_spans idx ic tc seen bs) \<Longrightarrow>
   idx \<le> i \<and> i < idx + length bs
   \<and> block_type (bs ! (i - idx)) \<noteq> ''Section header''
   \<and> (if is_resource_block (bs ! (i - idx)) then (\<exists>n. t = image_ref n \<or> t = table_ref n)
       else t = block_text (bs ! (i - idx)))"
proof (induction bs arbitrary: idx ic tc seen)
  case Nil
  then show ?case by simp
next
  case (Cons b bs)
  show ?case
  proof (cases "i = idx")
    case True
    have later: "\<And>ic tc seen. (i, t) \<notin> set (produced_spans (Suc idx) ic tc seen bs)"
      using produced_spans_from [of i t "Suc idx"] True by fastforce
    then show ?thesis
      using Cons.prems True by (auto simp: is_resource_block_def split: if_splits)
  next
    case False
    then obtain ic' tc' seen' where "(i, t) \<in> set (produced_spans (Suc idx) ic' tc' seen' bs)"
      using Cons.prems by (auto split: if_splits)
    from Cons.IH [OF this] have "Suc idx \<le> i" "i < Suc idx + length bs"
      "block_type (bs ! (i - Suc idx)) \<noteq> ''Section header''"
      "if is_resource_block (bs ! (i - Suc idx)) then (\<exists>n. t = image_ref n \<or> t = table_ref n)
       else t = block_text (bs ! (i - Suc idx))"
      by simp_all
    moreover from this have "(b # bs) ! (i - idx) = bs ! (i - Suc idx)"
      by (simp add: nth_Cons')
    ultimately show ?thesis by simp
  qed
qed

lemma produced_spans_contributors:
  "map fst (produced_spans idx ic tc seen bs) = contributors idx seen bs"
  by (induction bs arbitrary: idx ic tc seen) simp_all




lemma classify_eq:
  "classify part = (if too_long part then Inl ValueError else Inr (span_of_part part))"
  by (simp add: classify_def too_long_def span_of_part_def int_of_digits_def
        split: option.splits)

lemma classify_parts_eq:
  "classify_parts parts =
     (if list_ex too_long parts then Inl ValueError else Inr (map span_of_part parts))"
  by (induction parts) (simp_all add: classify_eq)

lemma parse_block_links_eq:
  "parse_block_links text =
     (if has_long_link text then Inl ValueError else Inr (spans_of_text text))"
  by (simp add: parse_block_links_def has_long_link_def spans_of_text_def classify_parts_eq)

lemma too_long_block_link: "too_long (block_link i) = (int_max_str_digits < length (str_nat i))"
  using match_block_link_at_marker [of i "[]"] by (simp add: too_long_def)

lemma has_long_link_at_marker:
  "has_long_link (u @ block_link i @ v) =
     (has_long_link u \<or> int_max_str_digits < length (str_nat i) \<or> has_long_link v)"
  by (simp add: has_long_link_def re_split_at_marker too_long_block_link)

lemma has_long_link_no_link: "\<not> has_block_link s \<Longrightarrow> \<not> has_long_link s"
  by (simp add: has_long_link_def re_split_no_link too_long_def no_link_no_match)

lemma str_nat_length: "0 < k \<Longrightarrow> n < 10 ^ k \<Longrightarrow> length (str_nat n) \<le> k"
proof (induction n arbitrary: k rule: str_nat.induct)
  case (1 n)
  show ?case
  proof (cases "n < 10")
    case True
    then show ?thesis using "1.prems"(1) by (subst str_nat.simps) simp
  next
    case False
    obtain k' where k: "k = Suc k'" using "1.prems"(1) by (cases k) auto
    have "0 < k'"
    proof (rule ccontr)
      assume "\<not> 0 < k'"
      then show False using "1.prems"(2) False k by simp
    qed
    moreover have "n div 10 < 10 ^ k'"
      using "1.prems"(2) k by (simp add: less_mult_imp_div_less mult.commute)
    ultimately have "length (str_nat (n div 10)) \<le> k'"
      using "1.IH" False by simp
    then show ?thesis using False k by (subst str_nat.simps) simp
  qed
qed

lemma short_index:
  assumes "i < 10 ^ int_max_str_digits"
  shows "\<not> int_max_str_digits < length (str_nat i)"
proof -
  have "0 < int_max_str_digits" by (simp add: int_max_str_digits_def)
  from str_nat_length [OF this assms] show ?thesis by (simp only: not_less)
qed






section \<open>Order of the decoded indices\<close>

lemma decoded_empty [simp]: "decoded_indices [] = []"
  by (simp add: decoded_no_link)

lemma decoded_wrap_append:
  "decoded_indices (block_link i @ t @ block_link i @ w) =
     i # decoded_indices t @ i # decoded_indices w"
  using decoded_at_marker [of "[]" i "t @ block_link i @ w"] decoded_at_marker [of t i w]
  by simp

lemma decoded_wrapped:
  "decoded_indices (block_link i @ t @ block_link i) = i # decoded_indices t @ [i]"
  using decoded_wrap_append [of i t "[]"] by simp

lemma decoded_space_marker:
  "decoded_indices ('' '' @ block_link j @ w) = decoded_indices (block_link j @ w)"
proof -
  have "\<not> has_block_link '' ''" by (simp add: match_block_link_def)
  then have "decoded_indices '' '' = []" by (rule decoded_no_link)
  then show ?thesis
    using decoded_at_marker [of "'' ''" j w] decoded_at_marker [of "[]" j w] by simp
qed

lemma join_starts: "\<exists>r. join sep (y # ys) = y @ r"
  by (cases ys) simp_all

lemma decoded_join_wrapped:
  "list_all (wrapped n) xs \<Longrightarrow>
   decoded_indices (join '' '' xs) = concat (map decoded_indices xs)"
proof (induction "'' ''" xs rule: join.induct)
  case 1
  then show ?case by simp
next
  case (2 x)
  then show ?case by simp
next
  case (3 x y ys)
  obtain i t where x: "x = block_link i @ t @ block_link i"
    using "3.prems" by (auto simp: wrapped_def)
  obtain j t' where y: "y = block_link j @ t' @ block_link j"
    using "3.prems" by (auto simp: wrapped_def)
  obtain r where r: "join '' '' (y # ys) = y @ r"
    using join_starts by blast
  have "decoded_indices ('' '' @ y @ r) = decoded_indices (y @ r)"
    unfolding y using decoded_space_marker [of j "t' @ block_link j @ r"] by simp
  then have "decoded_indices ('' '' @ join '' '' (y # ys)) = decoded_indices (join '' '' (y # ys))"
    by (simp only: r)
  then have "decoded_indices (x @ '' '' @ join '' '' (y # ys)) =
      decoded_indices x @ decoded_indices (join '' '' (y # ys))"
    unfolding x
    using decoded_wrap_append [of i t "'' '' @ join '' '' (y # ys)"] decoded_wrapped [of i t]
    by simp
  then show ?case using "3.hyps" "3.prems" by simp
qed

lemma state_indices_flush:
  "list_all (wrapped n) (current_text_buffer st) \<Longrightarrow>
   state_indices (flush_current_text st) = state_indices st"
  by (simp add: state_indices_def flush_current_text_def content_indices_def
        decoded_join_wrapped)

lemma no_link_without_bracket: "CHR ''['' \<notin> set s \<Longrightarrow> \<not> has_block_link s"
  by (induction s) (auto simp: match_block_link_def split: option.splits)

lemma str_nat_no_bracket: "CHR ''['' \<notin> set (str_nat n)"
  using str_nat_digits [of "CHR ''[''" n] by auto

lemma image_ref_no_link: "\<not> has_block_link (image_ref n)"
  using no_link_without_bracket [of "''image:'' @ str_nat n @ '']''"] str_nat_no_bracket [of n]
  by (simp add: image_ref_def match_block_link_def)

lemma table_ref_no_link: "\<not> has_block_link (table_ref n)"
  using no_link_without_bracket [of "''table:'' @ str_nat n @ '']''"] str_nat_no_bracket [of n]
  by (simp add: table_ref_def match_block_link_def)

lemma state_indices_step:
  assumes "list_all (wrapped n) (current_text_buffer st)"
    and "\<not> has_block_link (block_text b)"
  shows "state_indices (process_block mp idx b st) =
           state_indices st @
           concat (map (\<lambda>i. [i, i]) (contributors idx (last_resource st \<noteq> None) [b]))"
proof -
  have fl: "state_indices (flush_current_text st) = state_indices st"
    using assms(1) by (rule state_indices_flush)
  have hdr: "state_indices (flush_current_text st) =
      content_indices (content_sections (flush_current_text st))"
    by (simp add: state_indices_def)
  have tx: "decoded_indices (block_link idx @ block_text b @ block_link idx) = [idx, idx]"
    using assms(2) by (simp add: decoded_wrapped decoded_no_link)
  have img: "\<And>k. decoded_indices (block_link idx @ image_ref k @ block_link idx) = [idx, idx]"
    by (simp add: decoded_wrapped decoded_no_link image_ref_no_link)
  have tab: "\<And>k. decoded_indices (block_link idx @ table_ref k @ block_link idx) = [idx, idx]"
    by (simp add: decoded_wrapped decoded_no_link table_ref_no_link)
  show ?thesis
  proof (cases "block_type b = ''Section header''")
    case True
    then show ?thesis
      using fl hdr by (simp add: process_block_def state_indices_def)
  next
    case False
    then show ?thesis
      by (auto simp: process_block_def state_indices_def tx img tab split: option.splits)
  qed
qed

lemma buffer_wrapped_step:
  "spans_wrapped (Suc idx) st \<Longrightarrow>
   list_all (wrapped (Suc idx)) (current_text_buffer (process_block mp idx b st))"
  using spans_wrapped_step [of idx st mp b] by (simp add: spans_wrapped_def)

lemma last_resource_step:
  "(last_resource (process_block mp idx b st) \<noteq> None) =
     (last_resource st \<noteq> None \<or> block_type b = ''Picture'' \<or> block_type b = ''Table'')"
  by (auto simp: process_block_def split: option.splits)

lemma contributors_Cons:
  "contributors idx seen (b # bs) =
     contributors idx seen [b] @
     contributors (Suc idx) (seen \<or> block_type b = ''Picture'' \<or> block_type b = ''Table'') bs"
  by simp

lemma state_indices_process_blocks:
  "spans_wrapped n st \<Longrightarrow> n \<le> idx \<Longrightarrow> list_all (\<lambda>b. \<not> has_block_link (block_text b)) bs \<Longrightarrow>
   state_indices (process_blocks mp idx bs st) =
     state_indices st @
     concat (map (\<lambda>i. [i, i]) (contributors idx (last_resource st \<noteq> None) bs))"
proof (induction bs arbitrary: n idx st)
  case Nil
  then show ?case by simp
next
  case (Cons b bs)
  have sw: "spans_wrapped (Suc idx) st"
    using Cons.prems by (simp add: spans_wrapped_mono)
  then have sw': "spans_wrapped (Suc idx) (process_block mp idx b st)"
    by (rule spans_wrapped_step)
  have buf: "list_all (wrapped (Suc idx)) (current_text_buffer st)"
    using sw by (simp add: spans_wrapped_def)
  have step: "state_indices (process_block mp idx b st) =
           state_indices st @
           concat (map (\<lambda>i. [i, i]) (contributors idx (last_resource st \<noteq> None) [b]))"
    using state_indices_step [OF buf] Cons.prems(3) by simp
  have rest: "state_indices (process_blocks mp (Suc idx) bs (process_block mp idx b st)) =
      state_indices (process_block mp idx b st) @
      concat (map (\<lambda>i. [i, i])
        (contributors (Suc idx) (last_resource (process_block mp idx b st) \<noteq> None) bs))"
    using Cons.IH [OF sw', of "Suc idx"] Cons.prems(3) by simp
  show ?case
    unfolding process_blocks.simps rest step last_resource_step
    by (subst (2) contributors_Cons) simp
qed

lemma compile_content_indices:
  assumes "list_all (\<lambda>b. \<not> has_block_link (block_text b)) bs"
  shows "content_indices (out_content (compile_parsed_content bs mp)) =
           concat (map (\<lambda>i. [i, i]) (contributors 0 False bs))"
proof -
  let ?st = "process_blocks mp 0 bs initial_state"
  have sw: "spans_wrapped (length bs) ?st"
    using spans_wrapped_process_blocks [OF spans_wrapped_initial, of 0 bs mp] by simp
  have "state_indices (flush_current_text ?st) = state_indices ?st"
    using sw state_indices_flush [of "length bs" ?st] by (simp add: spans_wrapped_def)
  moreover have "state_indices ?st = concat (map (\<lambda>i. [i, i]) (contributors 0 False bs))"
    using state_indices_process_blocks [OF spans_wrapped_initial _ assms, of 0 mp]
    by (simp add: state_indices_def content_indices_def initial_state_def)
  moreover have "content_indices (out_content (compile_parsed_content bs mp)) =
      state_indices (flush_current_text ?st)"
    by (simp add: compile_parsed_content_def finish_def state_indices_def content_indices_def)
  ultimately show ?thesis by simp
qed

lemma contributors_bounds: "i \<in> set (contributors idx seen bs) \<Longrightarrow> idx \<le> i"
proof (induction bs arbitrary: idx seen)
  case Nil
  then show ?case by simp
next
  case (Cons b bs)
  then show ?case
    by (fastforce split: if_splits dest: Suc_leD)
qed

lemma contributors_increasing: "sorted_wrt (<) (contributors idx seen bs)"
proof (induction bs arbitrary: idx seen)
  case Nil
  then show ?case by simp
next
  case (Cons b bs)
  have "\<And>s i. i \<in> set (contributors (Suc idx) s bs) \<Longrightarrow> idx < i"
    using contributors_bounds [of _ "Suc idx"] by fastforce
  then show ?case using Cons.IH by simp
qed

lemma doubled_sorted: "sorted_wrt (<) xs \<Longrightarrow> sorted (concat (map (\<lambda>i. [i, i]) (xs :: nat list)))"
  by (induction xs) (auto simp: less_imp_le)

lemma contributors_are_fragments:
  "i \<in> set (contributors idx seen bs) \<Longrightarrow>
   idx \<le> i \<and> i < idx + length bs \<and> block_type (bs ! (i - idx)) \<noteq> ''Section header''"
proof (induction bs arbitrary: idx seen)
  case Nil
  then show ?case by simp
next
  case (Cons b bs)
  show ?case
  proof (cases "i = idx")
    case True
    have "block_type b \<noteq> ''Section header''"
    proof
      assume "block_type b = ''Section header''"
      then have "i \<in> set (contributors (Suc idx) seen bs)" using Cons.prems by simp
      then show False using contributors_bounds [of i "Suc idx" seen bs] True by simp
    qed
    then show ?thesis using True by simp
  next
    case False
    then obtain s where "i \<in> set (contributors (Suc idx) s bs)"
      using Cons.prems by (auto split: if_splits)
    from Cons.IH [OF this] have "Suc idx \<le> i" "i < Suc idx + length bs"
      "block_type (bs ! (i - Suc idx)) \<noteq> ''Section header''"
      by simp_all
    moreover from this have "(b # bs) ! (i - idx) = bs ! (i - Suc idx)"
      by (simp add: nth_Cons')
    ultimately show ?thesis by simp
  qed
qed

lemma content_sections_step:
  "content_sections (process_block mp idx b st) =
     (if block_type b = ''Section header'' then content_sections (flush_current_text st)
      else content_sections st)"
  by (simp add: process_block_def split: option.splits)

lemma has_long_link_join:
  assumes "\<forall>x\<in>set xs. \<exists>i t. x = block_link i @ t @ block_link i
             \<and> \<not> int_max_str_digits < length (str_nat i) \<and> \<not> has_block_link t"
  shows "\<not> has_long_link (join '' '' xs)"
  using assms
proof (induction "'' ''" xs rule: join.induct)
  case 1
  then show ?case by (simp add: has_long_link_no_link)
next
  case (2 x)
  then obtain i t where x: "x = block_link i @ t @ block_link i"
    and i: "\<not> int_max_str_digits < length (str_nat i)" and t: "\<not> has_block_link t"
    by auto
  show ?case
    using has_long_link_at_marker [of "[]" i "t @ block_link i"]
      has_long_link_at_marker [of t i "[]"] i
      has_long_link_no_link [OF t] has_long_link_no_link [of "[]"]
    by (simp add: x)
next
  case (3 x y ys)
  obtain i t where x: "x = block_link i @ t @ block_link i"
    and i: "\<not> int_max_str_digits < length (str_nat i)" and t: "\<not> has_block_link t"
    using "3.prems" by auto
  obtain j t' where y: "y = block_link j @ t' @ block_link j"
    using "3.prems" by auto
  obtain r where r: "join '' '' (y # ys) = y @ r"
    using join_starts by blast
  have rest: "\<not> has_long_link (join '' '' (y # ys))"
    using "3.hyps" "3.prems" by simp
  have sp: "\<not> has_long_link '' ''"
    by (rule has_long_link_no_link) (simp add: match_block_link_def)
  have "has_long_link ('' '' @ y @ r) = has_long_link (y @ r)"
    unfolding y
    using has_long_link_at_marker [of "'' ''" j "t' @ block_link j @ r"]
      has_long_link_at_marker [of "[]" j "t' @ block_link j @ r"]
      sp has_long_link_no_link [of "[]"]
    by simp
  then have "\<not> has_long_link ('' '' @ join '' '' (y # ys))"
    using rest by (simp add: r)
  then have "\<not> has_long_link (x @ '' '' @ join '' '' (y # ys))"
    unfolding x
    using has_long_link_at_marker [of "[]" i "t @ block_link i @ '' '' @ join '' '' (y # ys)"]
      has_long_link_at_marker [of t i "'' '' @ join '' '' (y # ys)"] i
      has_long_link_no_link [OF t] has_long_link_no_link [of "[]"]
    by simp
  then show ?case by simp
qed

lemma compile_texts_decode:
  assumes "list_all (\<lambda>b. \<not> has_block_link (block_text b)) bs"
    and "length bs \<le> 10 ^ int_max_str_digits"
  shows "list_all (\<lambda>text. \<exists>spans. parse_block_links text = Inr spans
             \<and> link_indices spans = decoded_indices text)
           (map ce_text (out_content (compile_parsed_content bs mp)))"
proof -
  obtain groups where g: "map ce_text (out_content (compile_parsed_content bs mp)) =
      map (join '' '') groups"
    and c: "concat groups = map marked (produced_spans 0 1 1 False bs)"
    using compile_grouped [of bs mp] by blast
  have clean: "\<exists>i t. x = block_link i @ t @ block_link i
      \<and> \<not> int_max_str_digits < length (str_nat i) \<and> \<not> has_block_link t"
    if "x \<in> set (concat groups)" for x
  proof -
    from that obtain i t where p: "(i, t) \<in> set (produced_spans 0 1 1 False bs)"
      and x: "x = block_link i @ t @ block_link i"
      unfolding c by (auto simp: marked_def)
    from produced_spans_origin [OF p] have i: "i < length bs"
      and t: "if is_resource_block (bs ! i) then (\<exists>n. t = image_ref n \<or> t = table_ref n)
              else t = block_text (bs ! i)"
      by (simp_all cong: if_cong)
    have "i < 10 ^ int_max_str_digits" using i assms(2) by simp
    then have short: "\<not> int_max_str_digits < length (str_nat i)" by (rule short_index)
    have "\<not> has_block_link (block_text (bs ! i))"
      using assms(1) i by (simp add: list_all_length)
    then have "\<not> has_block_link t"
      using t by (auto simp: image_ref_no_link table_ref_no_link split: if_splits)
    then show ?thesis using x short by blast
  qed
  have "\<not> has_long_link (join '' '' grp)" if "grp \<in> set groups" for grp
  proof (rule has_long_link_join)
    show "\<forall>x\<in>set grp. \<exists>i t. x = block_link i @ t @ block_link i
             \<and> \<not> int_max_str_digits < length (str_nat i) \<and> \<not> has_block_link t"
      using that clean by auto
  qed
  then have "\<forall>text\<in>set (map (join '' '') groups).
      parse_block_links text = Inr (spans_of_text text)
      \<and> link_indices (spans_of_text text) = decoded_indices text"
    by (auto simp: parse_block_links_eq decoded_indices_def)
  then show ?thesis unfolding g list_all_iff by blast
qed

text \<open>
  C8, as the claim states it, fails for a block whose own text holds a marker: the
  decoder reads that marker too, and the decoded indices are no longer in order.
\<close>

theorem marker_in_text_breaks_order:
  "content_indices (out_content (compile_parsed_content
       [\<lparr>blk_type = Some ''Text'', blk_text = Some ''[block:9]''\<rparr>,
        \<lparr>blk_type = Some ''Text'', blk_text = Some ''x''\<rparr>] Map.empty)) = [0, 9, 0, 1, 1]
   \<and> \<not> sorted (content_indices (out_content (compile_parsed_content
       [\<lparr>blk_type = Some ''Text'', blk_text = Some ''[block:9]''\<rparr>,
        \<lparr>blk_type = Some ''Text'', blk_text = Some ''x''\<rparr>] Map.empty)))"
proof -
  have "content_indices (out_content (compile_parsed_content
       [\<lparr>blk_type = Some ''Text'', blk_text = Some ''[block:9]''\<rparr>,
        \<lparr>blk_type = Some ''Text'', blk_text = Some ''x''\<rparr>] Map.empty)) = [0, 9, 0, 1, 1]"
    by (simp add: compile_eval content_indices_def decoded_indices_def spans_of_text_def
          span_of_part_def match_block_link_def is_digit_def nat_of_digits_def digit_val_def)
  then show ?thesis by simp
qed

text \<open>
  C8 (amended): when no block's trimmed text holds a marker, the block indices decoded
  from the texts of the compiled content entries, taken across the entries in output
  order, are each contributing block's index twice (once per marker of its span), the
  contributing blocks in input order; so they are non-decreasing. A contributing block is
  never a Section header. A content entry is appended only by a flush: a block that is not
  a Section header leaves the entries as they are, a Section header appends what the flush
  of the buffer appends, and the output holds the entries of the last flush. For an input
  of at most \<open>10^4300\<close> blocks, \<open>parse_block_links\<close> returns on every entry text, and
  the indices of the links it returns are the decoded indices of that text.
\<close>

theorem decoded_indices_follow_input_order:
  assumes "list_all (\<lambda>b. \<not> has_block_link (block_text b)) bs"
  shows "content_indices (out_content (compile_parsed_content bs mp)) =
           concat (map (\<lambda>i. [i, i]) (contributors 0 False bs))
       \<and> sorted (content_indices (out_content (compile_parsed_content bs mp)))
       \<and> sorted_wrt (<) (contributors 0 False bs)
       \<and> (\<forall>i\<in>set (contributors 0 False bs).
             i < length bs \<and> block_type (bs ! i) \<noteq> ''Section header'')
       \<and> (block_type b \<noteq> ''Section header'' \<longrightarrow>
             content_sections (process_block mp idx b st) = content_sections st)
       \<and> (block_type b = ''Section header'' \<longrightarrow>
             content_sections (process_block mp idx b st) =
               content_sections (flush_current_text st))
       \<and> (content_sections (flush_current_text (process_blocks mp 0 bs initial_state)) \<noteq> [] \<longrightarrow>
             out_content (compile_parsed_content bs mp) =
               content_sections (flush_current_text (process_blocks mp 0 bs initial_state)))
       \<and> (length bs \<le> 10 ^ int_max_str_digits \<longrightarrow>
             list_all (\<lambda>text. \<exists>spans. parse_block_links text = Inr spans
                 \<and> link_indices spans = decoded_indices text)
               (map ce_text (out_content (compile_parsed_content bs mp))))"
proof -
  have eq: "content_indices (out_content (compile_parsed_content bs mp)) =
           concat (map (\<lambda>i. [i, i]) (contributors 0 False bs))"
    using assms by (rule compile_content_indices)
  have inc: "sorted_wrt (<) (contributors 0 False bs)"
    by (rule contributors_increasing)
  have srt: "sorted (content_indices (out_content (compile_parsed_content bs mp)))"
    unfolding eq using inc by (rule doubled_sorted)
  have frag: "\<forall>i\<in>set (contributors 0 False bs).
             i < length bs \<and> block_type (bs ! i) \<noteq> ''Section header''"
    using contributors_are_fragments [of _ 0 False bs] by simp
  have out: "content_sections (flush_current_text (process_blocks mp 0 bs initial_state)) \<noteq> []
      \<longrightarrow> out_content (compile_parsed_content bs mp) =
               content_sections (flush_current_text (process_blocks mp 0 bs initial_state))"
    by (simp add: compile_parsed_content_def finish_def)
  have dec: "length bs \<le> 10 ^ int_max_str_digits \<longrightarrow>
             list_all (\<lambda>text. \<exists>spans. parse_block_links text = Inr spans
                 \<and> link_indices spans = decoded_indices text)
               (map ce_text (out_content (compile_parsed_content bs mp)))"
    using compile_texts_decode [OF assms] by blast
  have first: "content_indices (out_content (compile_parsed_content bs mp)) =
           concat (map (\<lambda>i. [i, i]) (contributors 0 False bs))
       \<and> sorted (content_indices (out_content (compile_parsed_content bs mp)))
       \<and> sorted_wrt (<) (contributors 0 False bs)
       \<and> (\<forall>i\<in>set (contributors 0 False bs).
             i < length bs \<and> block_type (bs ! i) \<noteq> ''Section header'')
       \<and> (block_type b \<noteq> ''Section header'' \<longrightarrow>
             content_sections (process_block mp idx b st) = content_sections st)
       \<and> (block_type b = ''Section header'' \<longrightarrow>
             content_sections (process_block mp idx b st) =
               content_sections (flush_current_text st))
       \<and> (content_sections (flush_current_text (process_blocks mp 0 bs initial_state)) \<noteq> [] \<longrightarrow>
             out_content (compile_parsed_content bs mp) =
               content_sections (flush_current_text (process_blocks mp 0 bs initial_state)))"
    using eq inc srt frag out by (simp add: content_sections_step)
  show ?thesis
    using first dec by blast
qed

theorem decoded_indices_follow_input_order_witness:
  "list_all (\<lambda>b. \<not> has_block_link (block_text b))
     [\<lparr>blk_type = Some ''Section header'', blk_text = Some ''H''\<rparr>,
      \<lparr>blk_type = Some ''Text'', blk_text = Some ''a [1]''\<rparr>,
      \<lparr>blk_type = Some ''Picture'', blk_text = Some ''p''\<rparr>,
      \<lparr>blk_type = Some ''Caption'', blk_text = Some ''c''\<rparr>,
      \<lparr>blk_type = Some ''Section header'', blk_text = Some ''G''\<rparr>,
      \<lparr>blk_type = Some ''Text'', blk_text = Some ''  ''\<rparr>,
      \<lparr>blk_type = Some ''List item'', blk_text = Some ''b''\<rparr>]
   \<and> contributors 0 False
     [\<lparr>blk_type = Some ''Section header'', blk_text = Some ''H''\<rparr>,
      \<lparr>blk_type = Some ''Text'', blk_text = Some ''a [1]''\<rparr>,
      \<lparr>blk_type = Some ''Picture'', blk_text = Some ''p''\<rparr>,
      \<lparr>blk_type = Some ''Caption'', blk_text = Some ''c''\<rparr>,
      \<lparr>blk_type = Some ''Section header'', blk_text = Some ''G''\<rparr>,
      \<lparr>blk_type = Some ''Text'', blk_text = Some ''  ''\<rparr>,
      \<lparr>blk_type = Some ''List item'', blk_text = Some ''b''\<rparr>] = [1, 2, 6]
   \<and> content_indices (out_content (compile_parsed_content
     [\<lparr>blk_type = Some ''Section header'', blk_text = Some ''H''\<rparr>,
      \<lparr>blk_type = Some ''Text'', blk_text = Some ''a [1]''\<rparr>,
      \<lparr>blk_type = Some ''Picture'', blk_text = Some ''p''\<rparr>,
      \<lparr>blk_type = Some ''Caption'', blk_text = Some ''c''\<rparr>,
      \<lparr>blk_type = Some ''Section header'', blk_text = Some ''G''\<rparr>,
      \<lparr>blk_type = Some ''Text'', blk_text = Some ''  ''\<rparr>,
      \<lparr>blk_type = Some ''List item'', blk_text = Some ''b''\<rparr>] Map.empty))
     = [1, 1, 2, 2, 6, 6]
   \<and> map ce_text (out_content (compile_parsed_content
     [\<lparr>blk_type = Some ''Section header'', blk_text = Some ''H''\<rparr>,
      \<lparr>blk_type = Some ''Text'', blk_text = Some ''a [1]''\<rparr>,
      \<lparr>blk_type = Some ''Picture'', blk_text = Some ''p''\<rparr>,
      \<lparr>blk_type = Some ''Caption'', blk_text = Some ''c''\<rparr>,
      \<lparr>blk_type = Some ''Section header'', blk_text = Some ''G''\<rparr>,
      \<lparr>blk_type = Some ''Text'', blk_text = Some ''  ''\<rparr>,
      \<lparr>blk_type = Some ''List item'', blk_text = Some ''b''\<rparr>] Map.empty))
     = [''[block:1]a [1][block:1] [block:2][image:1][block:2]'', ''[block:6]b[block:6]'']
   \<and> length
     [\<lparr>blk_type = Some ''Section header'', blk_text = Some ''H''\<rparr>,
      \<lparr>blk_type = Some ''Text'', blk_text = Some ''a [1]''\<rparr>,
      \<lparr>blk_type = Some ''Picture'', blk_text = Some ''p''\<rparr>,
      \<lparr>blk_type = Some ''Caption'', blk_text = Some ''c''\<rparr>,
      \<lparr>blk_type = Some ''Section header'', blk_text = Some ''G''\<rparr>,
      \<lparr>blk_type = Some ''Text'', blk_text = Some ''  ''\<rparr>,
      \<lparr>blk_type = Some ''List item'', blk_text = Some ''b''\<rparr>] \<le> 10 ^ int_max_str_digits
   \<and> (\<exists>spans. parse_block_links ''[block:1]a [1][block:1] [block:2][image:1][block:2]'' =
         Inr spans \<and> link_indices spans = [1, 1, 2, 2])
   \<and> (\<exists>spans. parse_block_links ''[block:6]b[block:6]'' = Inr spans
         \<and> link_indices spans = [6, 6])"
proof -
  have texts: "list_all (\<lambda>b. \<not> has_block_link (block_text b))
     [\<lparr>blk_type = Some ''Section header'', blk_text = Some ''H''\<rparr>,
      \<lparr>blk_type = Some ''Text'', blk_text = Some ''a [1]''\<rparr>,
      \<lparr>blk_type = Some ''Picture'', blk_text = Some ''p''\<rparr>,
      \<lparr>blk_type = Some ''Caption'', blk_text = Some ''c''\<rparr>,
      \<lparr>blk_type = Some ''Section header'', blk_text = Some ''G''\<rparr>,
      \<lparr>blk_type = Some ''Text'', blk_text = Some ''  ''\<rparr>,
      \<lparr>blk_type = Some ''List item'', blk_text = Some ''b''\<rparr>]"
    by (simp add: block_text_def strip_def is_space_def match_block_link_def)
  have who: "contributors 0 False
     [\<lparr>blk_type = Some ''Section header'', blk_text = Some ''H''\<rparr>,
      \<lparr>blk_type = Some ''Text'', blk_text = Some ''a [1]''\<rparr>,
      \<lparr>blk_type = Some ''Picture'', blk_text = Some ''p''\<rparr>,
      \<lparr>blk_type = Some ''Caption'', blk_text = Some ''c''\<rparr>,
      \<lparr>blk_type = Some ''Section header'', blk_text = Some ''G''\<rparr>,
      \<lparr>blk_type = Some ''Text'', blk_text = Some ''  ''\<rparr>,
      \<lparr>blk_type = Some ''List item'', blk_text = Some ''b''\<rparr>] = [1, 2, 6]"
    by (simp add: block_type_def block_text_def strip_def is_space_def)
  have out: "map ce_text (out_content (compile_parsed_content
     [\<lparr>blk_type = Some ''Section header'', blk_text = Some ''H''\<rparr>,
      \<lparr>blk_type = Some ''Text'', blk_text = Some ''a [1]''\<rparr>,
      \<lparr>blk_type = Some ''Picture'', blk_text = Some ''p''\<rparr>,
      \<lparr>blk_type = Some ''Caption'', blk_text = Some ''c''\<rparr>,
      \<lparr>blk_type = Some ''Section header'', blk_text = Some ''G''\<rparr>,
      \<lparr>blk_type = Some ''Text'', blk_text = Some ''  ''\<rparr>,
      \<lparr>blk_type = Some ''List item'', blk_text = Some ''b''\<rparr>] Map.empty))
     = [''[block:1]a [1][block:1] [block:2][image:1][block:2]'', ''[block:6]b[block:6]'']"
    by (simp add: compile_eval)
  have "(7::nat) \<le> 10 ^ 1" by simp
  also have "(10::nat) ^ 1 \<le> 10 ^ int_max_str_digits"
    by (rule power_increasing) (simp_all add: int_max_str_digits_def)
  finally have "(7::nat) \<le> 10 ^ int_max_str_digits" .
  then have len: "length
     [\<lparr>blk_type = Some ''Section header'', blk_text = Some ''H''\<rparr>,
      \<lparr>blk_type = Some ''Text'', blk_text = Some ''a [1]''\<rparr>,
      \<lparr>blk_type = Some ''Picture'', blk_text = Some ''p''\<rparr>,
      \<lparr>blk_type = Some ''Caption'', blk_text = Some ''c''\<rparr>,
      \<lparr>blk_type = Some ''Section header'', blk_text = Some ''G''\<rparr>,
      \<lparr>blk_type = Some ''Text'', blk_text = Some ''  ''\<rparr>,
      \<lparr>blk_type = Some ''List item'', blk_text = Some ''b''\<rparr>] \<le> 10 ^ int_max_str_digits"
    by simp
  note inst = decoded_indices_follow_input_order [OF texts, where mp = Map.empty]
  note dec = inst [THEN conjunct2, THEN conjunct2, THEN conjunct2, THEN conjunct2,
    THEN conjunct2, THEN conjunct2, THEN conjunct2, THEN mp, OF len]
  have d1: "decoded_indices ''[block:1]a [1][block:1] [block:2][image:1][block:2]'' =
      [1, 1, 2, 2]"
    and d2: "decoded_indices ''[block:6]b[block:6]'' = [6, 6]"
    by (simp_all add: decoded_indices_def spans_of_text_def span_of_part_def
          match_block_link_def is_digit_def nat_of_digits_def digit_val_def)
  have links: "(\<exists>spans. parse_block_links ''[block:1]a [1][block:1] [block:2][image:1][block:2]'' =
         Inr spans \<and> link_indices spans = [1, 1, 2, 2])
   \<and> (\<exists>spans. parse_block_links ''[block:6]b[block:6]'' = Inr spans
         \<and> link_indices spans = [6, 6])"
    using dec unfolding out by (simp add: d1 d2)
  have front: "content_indices (out_content (compile_parsed_content
     [\<lparr>blk_type = Some ''Section header'', blk_text = Some ''H''\<rparr>,
      \<lparr>blk_type = Some ''Text'', blk_text = Some ''a [1]''\<rparr>,
      \<lparr>blk_type = Some ''Picture'', blk_text = Some ''p''\<rparr>,
      \<lparr>blk_type = Some ''Caption'', blk_text = Some ''c''\<rparr>,
      \<lparr>blk_type = Some ''Section header'', blk_text = Some ''G''\<rparr>,
      \<lparr>blk_type = Some ''Text'', blk_text = Some ''  ''\<rparr>,
      \<lparr>blk_type = Some ''List item'', blk_text = Some ''b''\<rparr>] Map.empty))
     = [1, 1, 2, 2, 6, 6]"
    using inst [THEN conjunct1] who by simp
  show ?thesis
    by (intro conjI) (rule texts who front out len links [THEN conjunct1]
          links [THEN conjunct2])+
qed

section \<open>Resource reference parsing\<close>

lemma digit_groups_all_digits:
  "\<forall>c\<in>set ds. is_digit c \<Longrightarrow>
   digit_groups acc prev ds =
     (if ds = [] then (if prev then Some acc else None)
      else Some (foldl (\<lambda>a c. 10 * a + digit_val c) acc ds))"
  by (induction ds arbitrary: acc prev) simp_all

lemma digit_groups_digits:
  "ds \<noteq> [] \<Longrightarrow> \<forall>c\<in>set ds. is_digit c \<Longrightarrow>
   digit_groups acc prev ds = Some (foldl (\<lambda>a c. 10 * a + digit_val c) acc ds)"
  by (simp add: digit_groups_all_digits)

lemma dropWhile_head: "xs \<noteq> [] \<Longrightarrow> \<not> P (hd xs) \<Longrightarrow> dropWhile P xs = xs"
  by (cases xs) simp_all

lemma digit_not_space: "is_digit c \<Longrightarrow> \<not> is_space c" "is_digit c \<Longrightarrow> \<not> int_space c"
  by (auto simp: is_digit_def is_space_def int_space_def Let_def)

lemma trim_unchanged:
  assumes "s \<noteq> []" and "\<not> P (hd s)" and "\<not> P (last s)"
  shows "rev (dropWhile P (rev (dropWhile P s))) = s"
proof -
  have "dropWhile P s = s" using assms by (simp add: dropWhile_head)
  moreover have "dropWhile P (rev s) = rev s"
    using assms by (simp add: dropWhile_head hd_rev)
  ultimately show ?thesis by simp
qed

lemma strip_unchanged:
  "s \<noteq> [] \<Longrightarrow> \<not> is_space (hd s) \<Longrightarrow> \<not> is_space (last s) \<Longrightarrow> strip s = s"
  unfolding strip_def by (rule trim_unchanged)

lemma strip_chars_unchanged:
  "s \<noteq> [] \<Longrightarrow> hd s \<notin> set chars \<Longrightarrow> last s \<notin> set chars \<Longrightarrow> strip_chars chars s = s"
  unfolding strip_chars_def by (rule trim_unchanged)

lemma str_nat_ends: "is_digit (hd (str_nat n))" "is_digit (last (str_nat n))"
  using str_nat_digits [of _ n] str_nat_nonempty [of n] by (simp_all)

lemma digit_not_in [simp]:
  "is_digit c \<Longrightarrow> c \<notin> set ''[block:''" "is_digit c \<Longrightarrow> c \<noteq> CHR '']''"
  "is_digit c \<Longrightarrow> c \<noteq> CHR ''-''" "is_digit c \<Longrightarrow> c \<noteq> CHR ''+''"
  by (auto simp: is_digit_def)

lemma strip_chars_block_link:
  "strip_chars '']'' (strip_chars ''[block:'' (block_link k)) = str_nat k"
proof -
  let ?P = "\<lambda>c. c \<in> set ''[block:''"
  let ?Q = "\<lambda>c. c \<in> set '']''"
  have h: "\<not> ?P (hd (str_nat k @ '']''))" "\<not> ?Q (hd (str_nat k @ '']''))"
    using str_nat_ends(1) [of k] by (auto simp: hd_append is_digit_def)
  have l: "\<not> ?Q (hd (rev (str_nat k)))"
    using str_nat_ends(2) [of k] by (auto simp: hd_rev is_digit_def)
  have d1: "dropWhile ?P (str_nat k @ '']'') = str_nat k @ '']''"
    using h(1) by (intro dropWhile_head) simp_all
  have d2: "dropWhile ?Q (str_nat k @ '']'') = str_nat k @ '']''"
    using h(2) by (intro dropWhile_head) simp_all
  have d3: "dropWhile ?Q (rev (str_nat k)) = rev (str_nat k)"
    using l by (intro dropWhile_head) simp_all
  have d0: "dropWhile ?P (block_link k) = str_nat k @ '']''"
    using d1 by (simp add: block_link_def)
  have "strip_chars ''[block:'' (block_link k) = str_nat k @ '']''"
    unfolding strip_chars_def d0 by simp
  moreover have "strip_chars '']'' (str_nat k @ '']'') = str_nat k"
    unfolding strip_chars_def d2 using d3 by simp
  ultimately show ?thesis by simp
qed

lemma py_int_digits:
  assumes "ds \<noteq> []" and "\<forall>c\<in>set ds. is_digit c"
  shows "py_int ds =
           (if int_max_str_digits < length ds then None else Some (int (nat_of_digits ds)))"
proof -
  have hd: "is_digit (hd ds)" and lst: "is_digit (last ds)"
    using assms by simp_all
  have s: "rev (dropWhile int_space (rev (dropWhile int_space ds))) = ds"
    using assms(1) hd lst by (intro trim_unchanged) (simp_all add: digit_not_space)
  obtain c cs where cs: "ds = c # cs"
    using assms(1) by (cases ds) auto
  have c: "c \<noteq> CHR ''-''" "c \<noteq> CHR ''+''"
    using hd cs by (auto simp: is_digit_def)
  have f: "filter is_digit ds = ds"
    using assms(2) by simp
  have "digit_groups 0 False ds = Some (nat_of_digits ds)"
    unfolding nat_of_digits_def using assms by (intro digit_groups_digits) simp_all
  then have g: "within_limit (c # cs) (digit_groups 0 False (c # cs)) =
      (if int_max_str_digits < length ds then None else Some (nat_of_digits ds))"
    using f by (simp add: within_limit_def cs)
  have "py_int ds =
      (case c # cs of [] \<Rightarrow> None
       | c # cs \<Rightarrow>
          if c = CHR ''-'' then
            map_option (\<lambda>n. - int n) (within_limit cs (digit_groups 0 False cs))
          else if c = CHR ''+'' then
            map_option int (within_limit cs (digit_groups 0 False cs))
          else map_option int (within_limit (c # cs) (digit_groups 0 False (c # cs))))"
    unfolding py_int_def s by (simp only: cs)
  then show ?thesis using c g by simp
qed

lemma py_int_str_nat:
  "py_int (str_nat k) =
     (if int_max_str_digits < length (str_nat k) then None else Some (int k))"
  using py_int_digits [of "str_nat k"] str_nat_digits [of _ k]
  by (simp add: nat_of_digits_str_nat)

lemma resource_block_idx_marker:
  "resource_block_idx (Str_value (block_link k)) =
     Some (if int_max_str_digits < length (str_nat k) then 0 else int k)"
  by (simp add: resource_block_idx_def strip_chars_block_link py_int_str_nat)

text \<open>
  What \<open>resource_block_idx\<close> gives on each kind of value: a non-zero integer is its own
  index; a marker string \<open>[block:k]\<close> gives \<open>k\<close> unless \<open>k\<close> has more than 4300 digits;
  any other non-empty string gives what \<open>int\<close> reads from it once the characters of
  \<open>[block:\<close> and then \<open>]\<close> are stripped from both ends, and 0 when \<open>int\<close> refuses it; a
  true value of another type gives 0; the empty string, the default for an absent field,
  gives no index.
\<close>

lemma resource_reference_parsing:
  "(n \<noteq> 0 \<longrightarrow> resource_block_idx (Int_value n) = Some n)
   \<and> (length (str_nat k) \<le> int_max_str_digits \<longrightarrow>
        resource_block_idx (Str_value (block_link k)) = Some (int k))
   \<and> (s \<noteq> [] \<longrightarrow> py_int (strip_chars '']'' (strip_chars ''[block:'' s)) = None \<longrightarrow>
        resource_block_idx (Str_value s) = Some 0)
   \<and> (s \<noteq> [] \<longrightarrow> py_int (strip_chars '']'' (strip_chars ''[block:'' s)) = Some m \<longrightarrow>
        resource_block_idx (Str_value s) = Some m)
   \<and> resource_block_idx (Other_value True) = Some 0
   \<and> resource_block_idx (Str_value []) = None"
  using resource_block_idx_marker [of k] by (simp add: resource_block_idx_def)

lemma resource_reference_examples:
  "resource_block_idx (Int_value 7) = Some 7
   \<and> resource_block_idx (Int_value (- 2)) = Some (- 2)
   \<and> resource_block_idx (Str_value ''[block:12]'') = Some 12
   \<and> resource_block_idx (Str_value ''[block:x1]'') = Some 0
   \<and> resource_block_idx (Str_value ''block 4_2 '') = Some 42
   \<and> resource_block_idx (Str_value [CHR 0x1C, CHR ''7'']) = Some 0"
  by (simp add: resource_block_idx_def py_int_def within_limit_def int_max_str_digits_def
        strip_chars_def int_space_def is_digit_def digit_val_def)

text \<open>
  C9 at the input \<open>content_block = 0\<close>, the value the compiler writes for a resource made
  from the first block: the test \<open>if content_block\<close> is false for the integer 0, so no index
  is extracted and the resource gets no link, where the claim gives the index 0. The
  resources of a Picture at block 0 and a Table at block 1 get no index and the index 1.
\<close>

theorem resource_of_first_block_has_no_index:
  "resource_block_idx (Int_value 0) = None
   \<and> map content_block (out_resources (compile_parsed_content
       [\<lparr>blk_type = Some ''Picture'', blk_text = Some ''img''\<rparr>,
        \<lparr>blk_type = Some ''Table'', blk_text = Some ''tab''\<rparr>] mp)) = [0, 1]
   \<and> map (\<lambda>r. resource_block_idx (Int_value (int (content_block r))))
       (out_resources (compile_parsed_content
       [\<lparr>blk_type = Some ''Picture'', blk_text = Some ''img''\<rparr>,
        \<lparr>blk_type = Some ''Table'', blk_text = Some ''tab''\<rparr>] mp)) = [None, Some 1]"
  by (simp add: compile_eval resource_block_idx_def)

section \<open>Trimmed text\<close>

lemma strip_Nil [simp]: "strip [] = []"
  by (simp add: strip_def)

lemma strip_idem: "strip (strip s) = strip s"
proof (cases "strip s = []")
  case True
  then show ?thesis by simp
next
  case False
  define u where "u = dropWhile is_space s"
  define w where "w = dropWhile is_space (rev u)"
  have t: "strip s = rev w" by (simp add: strip_def u_def w_def)
  have w: "w \<noteq> []" using False t by simp
  have u: "u \<noteq> []"
  proof
    assume "u = []"
    then have "w = []" unfolding w_def by simp
    then show False using w by simp
  qed
  have "\<not> is_space (hd w)" using w unfolding w_def by (rule hd_dropWhile)
  then have l: "\<not> is_space (last (strip s))" using w by (simp add: t last_rev)
  obtain pre where "rev u = pre @ w"
    unfolding w_def by (metis takeWhile_dropWhile_id)
  then have "u = rev w @ rev pre" by (metis rev_append rev_rev_ident)
  then have "hd u = hd (rev w)" using w by (metis hd_append2 rev_is_Nil_conv)
  moreover have "\<not> is_space (hd u)" using u unfolding u_def by (rule hd_dropWhile)
  ultimately have h: "\<not> is_space (hd (strip s))" by (simp add: t)
  show ?thesis using False h l by (rule strip_unchanged)
qed

lemma strip_spaces:
  assumes "\<forall>c\<in>set t. is_space c"
  shows "strip t = []"
proof -
  have a: "dropWhile is_space t = []" using assms by simp
  show ?thesis unfolding strip_def a by simp
qed

lemma block_text_trimmed: "block_text (b\<lparr>blk_text := Some (block_text b)\<rparr>) = block_text b"
  by (simp add: block_text_def strip_idem)

text \<open>
  C10, as the claim states it, fails for a Caption block: one whose text is only
  whitespace, met while the last resource has no description yet, is neither a header nor a
  resource, and still changes the output: it becomes that resource's description (two
  markers around the empty text) and its \<open>description_block\<close>.
\<close>

theorem blank_caption_still_binds:
  "list_all is_space ''  ''
   \<and> out_resources (compile_parsed_content
       [\<lparr>blk_type = Some ''Picture'', blk_text = Some ''img''\<rparr>,
        \<lparr>blk_type = Some ''Caption'', blk_text = Some ''  ''\<rparr>] Map.empty) =
     [\<lparr>reference = ''[image:1]'', content = ''img'', content_type = ''image'',
       description = ''[block:1][block:1]'', content_block = 0, description_block = Some 1\<rparr>]
   \<and> process_block Map.empty 1 \<lparr>blk_type = Some ''Caption'', blk_text = Some ''  ''\<rparr>
       (process_block Map.empty 0 \<lparr>blk_type = Some ''Picture'', blk_text = Some ''img''\<rparr>
          initial_state) \<noteq>
     process_block Map.empty 0 \<lparr>blk_type = Some ''Picture'', blk_text = Some ''img''\<rparr>
          initial_state"
  by (simp add: compile_eval)

text \<open>
  C10 (amended): the compiler reads a block's text only through its trimmed form, an
  absent text counting as the empty string: replacing the text by its trimmed form, or
  changing it to any text with the same trimmed form, changes nothing. A block whose text
  is only whitespace is processed exactly like one with empty or absent text. Such a block
  leaves the whole state as it is when its type is none of Section header, Picture, Table
  and Caption, and also when it is a Caption met before any resource or after a resource
  that already has a description.
\<close>

theorem text_is_trimmed_before_use:
  "process_block mp idx (b\<lparr>blk_text := Some (block_text b)\<rparr>) st = process_block mp idx b st
   \<and> block_text \<lparr>blk_type = ty, blk_text = Some t\<rparr> = strip t
   \<and> block_text \<lparr>blk_type = ty, blk_text = None\<rparr> = []
   \<and> (strip t = strip t' \<longrightarrow>
        process_block mp idx \<lparr>blk_type = ty, blk_text = Some t\<rparr> st =
        process_block mp idx \<lparr>blk_type = ty, blk_text = Some t'\<rparr> st)
   \<and> ((\<forall>c \<in> set t. is_space c) \<longrightarrow>
        process_block mp idx \<lparr>blk_type = ty, blk_text = Some t\<rparr> st =
        process_block mp idx \<lparr>blk_type = ty, blk_text = Some []\<rparr> st
        \<and> process_block mp idx \<lparr>blk_type = ty, blk_text = Some t\<rparr> st =
          process_block mp idx \<lparr>blk_type = ty, blk_text = None\<rparr> st)
   \<and> ((\<forall>c \<in> set t. is_space c) \<longrightarrow>
        ty \<noteq> Some ''Section header'' \<longrightarrow> ty \<noteq> Some ''Picture'' \<longrightarrow>
        ty \<noteq> Some ''Table'' \<longrightarrow> ty \<noteq> Some ''Caption'' \<longrightarrow>
        process_block mp idx \<lparr>blk_type = ty, blk_text = Some t\<rparr> st = st)
   \<and> ((\<forall>c \<in> set t. is_space c) \<longrightarrow>
        (last_resource st = None
         \<or> (\<exists>i. last_resource st = Some i \<and> description (resources st ! i) \<noteq> [])) \<longrightarrow>
        process_block mp idx \<lparr>blk_type = Some ''Caption'', blk_text = Some t\<rparr> st = st)"
proof -
  have same: "process_block mp idx b st = process_block mp idx b' st"
    if "block_type b = block_type b'" and "block_text b = block_text b'" for b b'
    unfolding process_block_def that ..
  have trimmed: "process_block mp idx (b\<lparr>blk_text := Some (block_text b)\<rparr>) st =
      process_block mp idx b st"
    by (rule same) (simp_all add: block_type_def block_text_trimmed)
  have equal: "strip t = strip t' \<longrightarrow>
        process_block mp idx \<lparr>blk_type = ty, blk_text = Some t\<rparr> st =
        process_block mp idx \<lparr>blk_type = ty, blk_text = Some t'\<rparr> st"
    by (auto intro!: same simp: block_type_def block_text_def)
  have blank: "block_text \<lparr>blk_type = ty', blk_text = Some t\<rparr> = []"
    if "\<forall>c \<in> set t. is_space c" for ty'
    using that by (simp add: block_text_def strip_spaces)
  have blank_same: "(\<forall>c \<in> set t. is_space c) \<longrightarrow>
        process_block mp idx \<lparr>blk_type = ty, blk_text = Some t\<rparr> st =
        process_block mp idx \<lparr>blk_type = ty, blk_text = Some []\<rparr> st
        \<and> process_block mp idx \<lparr>blk_type = ty, blk_text = Some t\<rparr> st =
          process_block mp idx \<lparr>blk_type = ty, blk_text = None\<rparr> st"
    using blank by (auto intro!: same simp: block_type_def block_text_def)
  have other: "(\<forall>c \<in> set t. is_space c) \<longrightarrow>
        ty \<noteq> Some ''Section header'' \<longrightarrow> ty \<noteq> Some ''Picture'' \<longrightarrow>
        ty \<noteq> Some ''Table'' \<longrightarrow> ty \<noteq> Some ''Caption'' \<longrightarrow>
        process_block mp idx \<lparr>blk_type = ty, blk_text = Some t\<rparr> st = st"
    using blank by (cases ty) (simp_all add: process_block_def block_type_def)
  have caption: "(\<forall>c \<in> set t. is_space c) \<longrightarrow>
        (last_resource st = None
         \<or> (\<exists>i. last_resource st = Some i \<and> description (resources st ! i) \<noteq> [])) \<longrightarrow>
        process_block mp idx \<lparr>blk_type = Some ''Caption'', blk_text = Some t\<rparr> st = st"
    using blank [of "Some ''Caption''"]
    by (auto simp: process_block_def block_type_def)
  have bt: "block_text \<lparr>blk_type = ty, blk_text = Some t\<rparr> = strip t"
    and bn: "block_text \<lparr>blk_type = ty, blk_text = None\<rparr> = []"
    by (simp_all add: block_text_def)
  show ?thesis
    by (intro conjI) (rule trimmed bt bn equal blank_same other caption)+
qed

theorem text_is_trimmed_before_use_witness:
  "strip ''  Deep  learning '' = strip ''Deep  learning''
   \<and> current_text_buffer (process_block Map.empty 4
        \<lparr>blk_type = Some ''Text'', blk_text = Some ''  Deep  learning ''\<rparr> initial_state)
     = [''[block:4]Deep  learning[block:4]'']
   \<and> list_all is_space [CHR '' '', CHR 0x09, CHR 0x0A]
   \<and> Some ''Text'' \<noteq> Some ''Section header'' \<and> Some ''Text'' \<noteq> Some ''Picture''
   \<and> Some ''Text'' \<noteq> Some ''Table'' \<and> Some ''Text'' \<noteq> Some ''Caption''
   \<and> process_block Map.empty 4
        \<lparr>blk_type = Some ''Text'', blk_text = Some [CHR '' '', CHR 0x09, CHR 0x0A]\<rparr>
        initial_state = initial_state
   \<and> last_resource initial_state = None
   \<and> process_block Map.empty 4
        \<lparr>blk_type = Some ''Caption'', blk_text = Some [CHR '' '', CHR 0x09, CHR 0x0A]\<rparr>
        initial_state = initial_state"
proof -
  have sp: "\<forall>c \<in> set [CHR '' '', CHR 0x09, CHR 0x0A]. is_space c"
    by (simp add: is_space_def)
  have eq: "strip ''  Deep  learning '' = strip ''Deep  learning''"
    by (simp add: strip_def is_space_def)
  have buf: "current_text_buffer (process_block Map.empty 4
        \<lparr>blk_type = Some ''Text'', blk_text = Some ''Deep  learning''\<rparr> initial_state)
     = [''[block:4]Deep  learning[block:4]'']"
    by (simp add: compile_eval)
  have none: "last_resource initial_state = None
      \<or> (\<exists>i. last_resource initial_state = Some i
            \<and> description (resources initial_state ! i) \<noteq> [])"
    by (simp add: initial_state_def)
  have ty: "Some ''Text'' \<noteq> Some ''Section header''" "Some ''Text'' \<noteq> Some ''Picture''"
    "Some ''Text'' \<noteq> Some ''Table''" "Some ''Text'' \<noteq> Some ''Caption''"
    by simp_all
  note first = text_is_trimmed_before_use
      [where t = "''  Deep  learning ''" and t' = "''Deep  learning''" and ty = "Some ''Text''"
         and mp = Map.empty and idx = 4 and st = initial_state]
  note second = text_is_trimmed_before_use
      [where t = "[CHR '' '', CHR 0x09, CHR 0x0A]" and ty = "Some ''Text''"
         and mp = Map.empty and idx = 4 and st = initial_state]
  have a: "process_block Map.empty 4
        \<lparr>blk_type = Some ''Text'', blk_text = Some ''  Deep  learning ''\<rparr> initial_state =
      process_block Map.empty 4
        \<lparr>blk_type = Some ''Text'', blk_text = Some ''Deep  learning''\<rparr> initial_state"
    using first [THEN conjunct2, THEN conjunct2, THEN conjunct2, THEN conjunct1] eq
    by (rule mp)
  have b: "process_block Map.empty 4
        \<lparr>blk_type = Some ''Text'', blk_text = Some [CHR '' '', CHR 0x09, CHR 0x0A]\<rparr>
        initial_state = initial_state"
    by (rule second [THEN conjunct2, THEN conjunct2, THEN conjunct2, THEN conjunct2,
          THEN conjunct2, THEN conjunct1, THEN mp, OF sp, THEN mp, OF ty(1), THEN mp, OF ty(2),
          THEN mp, OF ty(3), THEN mp, OF ty(4)])
  have c: "process_block Map.empty 4
        \<lparr>blk_type = Some ''Caption'', blk_text = Some [CHR '' '', CHR 0x09, CHR 0x0A]\<rparr>
        initial_state = initial_state"
    by (rule second [THEN conjunct2, THEN conjunct2, THEN conjunct2, THEN conjunct2,
          THEN conjunct2, THEN conjunct2, THEN mp, OF sp, THEN mp, OF none])
  have l: "last_resource initial_state = None"
    by (simp add: initial_state_def)
  show ?thesis
    unfolding a b c using sp eq buf l by (simp add: list_all_iff)
qed

section \<open>Captions that bind to no resource\<close>

text \<open>
  Where no resource has been appended yet, a Caption block is processed exactly like a
  block of any ordinary type with the same text: this is the part of C1 the code keeps.
\<close>

lemma caption_without_resource_is_text:
  assumes "last_resource st = None" and "block_type b = ''Caption''"
    and "block_type b' \<noteq> ''Section header''" and "block_type b' \<noteq> ''Picture''"
    and "block_type b' \<noteq> ''Table''" and "block_type b' \<noteq> ''Caption''"
    and "block_text b' = block_text b"
  shows "process_block mp idx b st = process_block mp idx b' st"
  using assms by (simp add: process_block_def)

lemma caption_after_described_resource_is_dropped:
  assumes "last_resource st = Some i" and "description (resources st ! i) \<noteq> []"
    and "block_type b = ''Caption''"
  shows "process_block mp idx b st = st"
  using assms by (simp add: process_block_def)

text \<open>
  C1 at the input Picture \<open>img\<close>, Caption \<open>Fig 1\<close>, Caption \<open>more\<close>: the second
  caption finds the resource already described; it is not appended to the text buffer, so
  its text is in neither the content nor the resources, and the output differs from the
  one obtained with a Text block \<open>more\<close> in its place.
\<close>

theorem second_caption_is_dropped:
  "compile_parsed_content
     [\<lparr>blk_type = Some ''Picture'', blk_text = Some ''img''\<rparr>,
      \<lparr>blk_type = Some ''Caption'', blk_text = Some ''Fig 1''\<rparr>,
      \<lparr>blk_type = Some ''Caption'', blk_text = Some ''more''\<rparr>] mp =
   \<lparr>out_content =
      [\<lparr>ce_section = ''section_1'', ce_section_block = [],
        ce_subsection = ''subsection_1'', ce_subsection_block = [],
        ce_text = ''[block:0][image:1][block:0]''\<rparr>],
    out_resources =
      [\<lparr>reference = ''[image:1]'', content = ''img'', content_type = ''image'',
        description = ''[block:1]Fig 1[block:1]'', content_block = 0,
        description_block = Some 1\<rparr>]\<rparr>
   \<and> compile_parsed_content
     [\<lparr>blk_type = Some ''Picture'', blk_text = Some ''img''\<rparr>,
      \<lparr>blk_type = Some ''Caption'', blk_text = Some ''Fig 1''\<rparr>,
      \<lparr>blk_type = Some ''Text'', blk_text = Some ''more''\<rparr>] mp =
   \<lparr>out_content =
      [\<lparr>ce_section = ''section_1'', ce_section_block = [],
        ce_subsection = ''subsection_1'', ce_subsection_block = [],
        ce_text = ''[block:0][image:1][block:0] [block:2]more[block:2]''\<rparr>],
    out_resources =
      [\<lparr>reference = ''[image:1]'', content = ''img'', content_type = ''image'',
        description = ''[block:1]Fig 1[block:1]'', content_block = 0,
        description_block = Some 1\<rparr>]\<rparr>"
  by (simp add: compile_eval)

end
